theory Spec2Isabelle
  imports Complex_Main
begin

section \<open>Values read from a parsed payload\<close>

text \<open>
  The interceptor reads properties of the object that \<^verbatim>\<open>JSON.parse\<close> returns. A property
  is absent (\<^verbatim>\<open>undefined\<close>), \<^verbatim>\<open>null\<close>, or a value. The casts of the source
  (\<^verbatim>\<open>as string\<close>, \<^verbatim>\<open>as number\<close>, \<^verbatim>\<open>as Record<string, number>\<close>) declare the shape
  of every property it reads; the payload type below is that declared shape, with absent
  and null kept apart because \<^verbatim>\<open>??\<close>, \<^verbatim>\<open>||\<close> and \<^verbatim>\<open>!== undefined\<close> tell them apart.
  A payload in which a property has another type than its cast declares is outside the model.
  Numbers in payloads are the integer-valued ones (token counts, block ordinals). A string
  is the list of its code units, so \<^verbatim>\<open>.length\<close> is \<open>length\<close>; HOL characters are the code
  units below 256, and every code unit the interceptor compares with is ASCII.
\<close>

datatype 'a js = Undefined | Null | Val 'a

text \<open>
  A cost in dollars. \<^verbatim>\<open>NaN\<close> is what arithmetic on a missing price yields; it absorbs
  every sum. Finite costs are written over the reals: rounding to double precision is not
  part of the model.
\<close>

datatype jsnumber = Num real | NaN

fun js_add :: "jsnumber \<Rightarrow> jsnumber \<Rightarrow> jsnumber" where
  "js_add (Num a) (Num b) = Num (a + b)"
| "js_add _ _ = NaN"

text \<open>\<^verbatim>\<open>v || d\<close> on a string: the empty string, null and undefined are falsy.\<close>

definition or_str :: "string js \<Rightarrow> string \<Rightarrow> string" where
  "or_str v d = (case v of Val s \<Rightarrow> if s \<noteq> [] then s else d | _ \<Rightarrow> d)"

text \<open>\<^verbatim>\<open>v || 0\<close> on a number: zero, null and undefined are falsy.\<close>

definition or_zero :: "int js \<Rightarrow> int" where
  "or_zero v = (case v of Val n \<Rightarrow> if n \<noteq> 0 then n else 0 | _ \<Rightarrow> 0)"

text \<open>\<^verbatim>\<open>v ?? d\<close>: only null and undefined give way to the default.\<close>

definition nullish_or :: "'a js \<Rightarrow> 'a \<Rightarrow> 'a" where
  "nullish_or v d = (case v of Val x \<Rightarrow> x | _ \<Rightarrow> d)"

record usage_payload =
  u_input_tokens :: "int js"
  u_output_tokens :: "int js"
  u_cache_creation_input_tokens :: "int js"
  u_cache_read_input_tokens :: "int js"

record message_payload =
  m_id :: "string js"
  m_model :: "string js"
  m_usage :: "usage_payload js"

record block_payload =
  b_type :: "string js"

record delta_payload =
  d_text :: "string js"
  d_thinking :: "string js"
  d_partial_json :: "string js"
  d_stop_reason :: "string js"

record payload =
  p_type :: "string js"
  p_message :: "message_payload js"
  p_content_block :: "block_payload js"
  p_index :: "int js"
  p_delta :: "delta_payload js"
  p_usage :: "usage_payload js"

section \<open>Stream state (types.ts, interceptor.ts)\<close>

record TrackedBlock =
  index :: int
  type :: string
  charCount :: nat

record ApiUsage =
  input_tokens :: int
  output_tokens :: int
  cache_creation_input_tokens :: "int option"
  cache_read_input_tokens :: "int option"

record StreamState =
  messageId :: "string option"
  model :: string
  usage :: ApiUsage
  stopReason :: "string option"
  contentBlocks :: "TrackedBlock list"

text \<open>The module-level \<^verbatim>\<open>session\<close> object: cumulative totals for the live status.\<close>

record SessionLedger =
  totalCost :: jsnumber
  totalInput :: int
  totalOutput :: int
  totalCacheRead :: int
  totalCacheWrite :: int
  turns :: nat
  lastModel :: string
  lastTurnCost :: jsnumber

text \<open>
  \<^verbatim>\<open>state.contentBlocks.find((b) => b.index === index)\<close> followed by
  \<^verbatim>\<open>block.charCount += n\<close>: the first block whose index equals the payload's is updated
  in place; when none matches nothing changes. A null index passes the
  \<^verbatim>\<open>!== undefined\<close> test of the caller and matches no block.
\<close>

fun add_chars :: "int js \<Rightarrow> nat \<Rightarrow> TrackedBlock list \<Rightarrow> TrackedBlock list" where
  "add_chars i n [] = []"
| "add_chars i n (b # bs) =
     (if Val (index b) = i then b\<lparr>charCount := charCount b + n\<rparr> # bs
      else b # add_chars i n bs)"

text \<open>
  \<^verbatim>\<open>processSSEEvent(eventType, data, state)\<close>. It mutates the stream state and, in the
  \<^verbatim>\<open>message_start\<close> case, the \<^verbatim>\<open>lastModel\<close> field of the session object, so both are
  passed and returned. The event type is \<^verbatim>\<open>pending.eventType || parsed.type\<close> and may
  therefore be undefined; the \<^verbatim>\<open>switch\<close> then matches no case. The calls to
  \<^verbatim>\<open>updateLiveStatus\<close> write the terminal title only and are left out.
\<close>

definition processSSEEvent ::
  "string js \<Rightarrow> payload \<Rightarrow> StreamState \<times> SessionLedger \<Rightarrow> StreamState \<times> SessionLedger"
where
  "processSSEEvent eventType data ss =
    (let state = fst ss; session = snd ss in
     if eventType = Val ''message_start'' then
       (case p_message data of
          Val msg \<Rightarrow>
            let s1 = (case m_id msg of
                        Val i \<Rightarrow> if i \<noteq> [] then state\<lparr>messageId := Some i\<rparr> else state
                      | _ \<Rightarrow> state);
                s2 = (case m_model msg of
                        Val m \<Rightarrow> if m \<noteq> [] then s1\<lparr>model := m\<rparr> else s1
                      | _ \<Rightarrow> s1);
                s3 = (case m_usage msg of
                        Val u \<Rightarrow> s2\<lparr>usage :=
                          \<lparr>input_tokens = or_zero (u_input_tokens u),
                           output_tokens = or_zero (u_output_tokens u),
                           cache_creation_input_tokens = Some (or_zero (u_cache_creation_input_tokens u)),
                           cache_read_input_tokens = Some (or_zero (u_cache_read_input_tokens u))\<rparr>\<rparr>
                      | _ \<Rightarrow> s2)
            in (s3, session\<lparr>lastModel := model s3\<rparr>)
        | _ \<Rightarrow> (state, session))
     else if eventType = Val ''content_block_start'' then
       (let idx = nullish_or (p_index data) (int (length (contentBlocks state))) in
        case p_content_block data of
          Val block \<Rightarrow>
            (state\<lparr>contentBlocks := contentBlocks state @
               [\<lparr>index = idx, type = or_str (b_type block) ''text'', charCount = 0\<rparr>]\<rparr>,
             session)
        | _ \<Rightarrow> (state, session))
     else if eventType = Val ''content_block_delta'' then
       (case p_delta data of
          Val delta \<Rightarrow>
            if p_index data \<noteq> Undefined then
              (let text = or_str (d_text delta)
                            (or_str (d_thinking delta) (or_str (d_partial_json delta) ''''))
               in (state\<lparr>contentBlocks :=
                      add_chars (p_index data) (length text) (contentBlocks state)\<rparr>,
                   session))
            else (state, session)
        | _ \<Rightarrow> (state, session))
     else if eventType = Val ''message_delta'' then
       (let s1 = (case p_usage data of
                    Val deltaUsage \<Rightarrow>
                      state\<lparr>usage := (usage state)\<lparr>output_tokens :=
                        nullish_or (u_output_tokens deltaUsage) (output_tokens (usage state))\<rparr>\<rparr>
                  | _ \<Rightarrow> state);
            s2 = (case p_delta data of
                    Val d \<Rightarrow> (case d_stop_reason d of
                                 Val r \<Rightarrow> if r \<noteq> [] then s1\<lparr>stopReason := Some r\<rparr> else s1
                               | _ \<Rightarrow> s1)
                  | _ \<Rightarrow> s1)
        in (s2, session))
     else (state, session))"

section \<open>Pricing (pricing.ts)\<close>

record ModelPricing =
  input :: real
  "output" :: real
  cacheWrite :: real
  cacheRead :: real

text \<open>
  \<^verbatim>\<open>models: Record<string, ModelPricing>\<close> is kept as the list of its entries, in the order
  \<^verbatim>\<open>Object.entries\<close> yields them (keys distinct). \<^verbatim>\<open>loadPricing\<close> reads the table from
  disk once and caches it; the loaded table is a parameter of the functions below.
\<close>

record PricingConfig =
  version :: string
  models :: "(string \<times> ModelPricing) list"

text \<open>
  \<^verbatim>\<open>config.models[k]\<close> on a plain object: an own entry, or, for the names every object
  inherits from \<^verbatim>\<open>Object.prototype\<close>, the inherited member, which is truthy and has none
  of the four price fields; otherwise \<^verbatim>\<open>undefined\<close>.
\<close>

datatype 'a member = Missing | Inherited | Own 'a

definition inherited_names :: "string list" where
  "inherited_names = [''constructor'', ''__defineGetter__'', ''__defineSetter__'',
     ''hasOwnProperty'', ''__lookupGetter__'', ''__lookupSetter__'', ''isPrototypeOf'',
     ''propertyIsEnumerable'', ''toString'', ''valueOf'', ''__proto__'', ''toLocaleString'']"

definition get_model :: "(string \<times> ModelPricing) list \<Rightarrow> string \<Rightarrow> ModelPricing member" where
  "get_model ms k =
    (case map_of ms k of
       Some pricing \<Rightarrow> Own pricing
     | None \<Rightarrow> if k \<in> set inherited_names then Inherited else Missing)"

definition is_digit :: "char \<Rightarrow> bool" where
  "is_digit c = (c \<in> set ''0123456789'')"

text \<open>\<^verbatim>\<open>modelId.replace(/-\d{8}$/, "")\<close>: a hyphen and eight digits at the very end are cut.\<close>

definition normalizeModelId :: "string \<Rightarrow> string" where
  "normalizeModelId modelId =
    (let n = length modelId in
     if 9 \<le> n \<and> modelId ! (n - 9) = CHR ''-'' \<and> list_all is_digit (drop (n - 8) modelId)
     then take (n - 9) modelId else modelId)"

text \<open>\<^verbatim>\<open>s.includes(sub)\<close>: \<open>sub\<close> occurs in \<open>s\<close> as a contiguous substring.\<close>

fun includes_str :: "string \<Rightarrow> string \<Rightarrow> bool" where
  "includes_str [] sub = (sub = [])"
| "includes_str (c # cs) sub = (take (length sub) (c # cs) = sub \<or> includes_str cs sub)"

text \<open>The family loop of \<^verbatim>\<open>resolvePricing\<close>: the first entry whose key contains the family.\<close>

fun family_match ::
  "string list \<Rightarrow> string \<Rightarrow> (string \<times> ModelPricing) list \<Rightarrow> ModelPricing option"
where
  "family_match [] normalized ms = None"
| "family_match (family # families) normalized ms =
     (if includes_str normalized family then
        (case find (\<lambda>kp. includes_str (fst kp) family) ms of
           Some kp \<Rightarrow> Some (snd kp)
         | None \<Rightarrow> family_match families normalized ms)
      else family_match families normalized ms)"

text \<open>\<^verbatim>\<open>resolvePricing\<close>; \<open>Missing\<close> is its \<^verbatim>\<open>null\<close>.\<close>

definition resolvePricing :: "PricingConfig \<Rightarrow> string \<Rightarrow> ModelPricing member" where
  "resolvePricing config modelId =
    (let normalized = normalizeModelId modelId in
     case get_model (models config) normalized of
       Own pricing \<Rightarrow> Own pricing
     | Inherited \<Rightarrow> Inherited
     | Missing \<Rightarrow>
        (case get_model (models config) modelId of
           Own pricing \<Rightarrow> Own pricing
         | Inherited \<Rightarrow> Inherited
         | Missing \<Rightarrow>
            (case family_match [''opus'', ''sonnet'', ''haiku''] normalized (models config) of
               Some pricing \<Rightarrow> Own pricing
             | None \<Rightarrow> Missing)))"

text \<open>
  \<^verbatim>\<open>calculateCost\<close>. The branch for an unresolved model returns the literal 0 and does no
  arithmetic; an inherited member has no price fields, so every product is \<^verbatim>\<open>NaN\<close>.
\<close>

definition calculateCost ::
  "PricingConfig \<Rightarrow> string \<Rightarrow> int \<Rightarrow> int \<Rightarrow> int \<Rightarrow> int \<Rightarrow> jsnumber"
where
  "calculateCost config modelId inputTokens outputTokens cacheWriteTokens cacheReadTokens =
    (case resolvePricing config modelId of
       Missing \<Rightarrow> Num 0
     | Inherited \<Rightarrow> NaN
     | Own pricing \<Rightarrow>
         Num ((real_of_int inputTokens / 1000000) * input pricing +
              (real_of_int outputTokens / 1000000) * output pricing +
              (real_of_int cacheWriteTokens / 1000000) * cacheWrite pricing +
              (real_of_int cacheReadTokens / 1000000) * cacheRead pricing))"

section \<open>Event demuxer (processPendingBuffer)\<close>

record PendingStream =
  state :: StreamState
  requestModel :: string
  turnNum :: nat
  startTime :: int
  buffer :: string
  eventType :: string

text \<open>\<^verbatim>\<open>s.split("\n")\<close>: never empty; the last element is the text after the last line break.\<close>

fun split_nl :: "string \<Rightarrow> string list" where
  "split_nl [] = [[]]"
| "split_nl (c # cs) =
     (if c = CHR 0x0A then [] # split_nl cs
      else (case split_nl cs of l # ls \<Rightarrow> (c # l) # ls | [] \<Rightarrow> [[c]]))"

text \<open>White space of \<^verbatim>\<open>String.prototype.trim\<close> among the code units below 256.\<close>

definition is_ws :: "char \<Rightarrow> bool" where
  "is_ws c = (c \<in> set [CHR 0x09, CHR 0x0A, CHR 0x0B, CHR 0x0C, CHR 0x0D, CHR 0x20, CHR 0xA0])"

definition trim :: "string \<Rightarrow> string" where
  "trim s = rev (dropWhile is_ws (rev (dropWhile is_ws s)))"

text \<open>
  The body of the \<^verbatim>\<open>for (const line of lines)\<close> loop. \<^verbatim>\<open>JSON.parse\<close> is the parameter
  \<open>parse\<close>; \<open>None\<close> stands for the exception it throws, which the \<^verbatim>\<open>catch\<close> of the loop
  body swallows. On a top-level \<^verbatim>\<open>null\<close> the first property access throws inside the same
  \<^verbatim>\<open>try\<close>, before any assignment (or, under an event type outside the \<^verbatim>\<open>switch\<close>,
  nothing reads it), so \<open>None\<close> covers it as well; any other top-level value that is not an
  object has none of the properties read and is the payload with no property set. The calls
  to \<^verbatim>\<open>writeLog\<close> append to a side log inside their own \<^verbatim>\<open>try\<close> and are left out.
\<close>

definition processLine ::
  "(string \<Rightarrow> payload option) \<Rightarrow> string \<Rightarrow> PendingStream \<times> SessionLedger
     \<Rightarrow> PendingStream \<times> SessionLedger"
where
  "processLine parse line ps =
    (let pending = fst ps; session = snd ps in
     if take 7 line = ''event: '' then (pending\<lparr>eventType := trim (drop 7 line)\<rparr>, session)
     else if take 6 line = ''data: '' then
       (let data = drop 6 line in
        if data = ''[DONE]'' then (pending, session)
        else (case parse data of
                None \<Rightarrow> (pending, session)
              | Some parsed \<Rightarrow>
                  (let evtType = (if eventType pending \<noteq> [] then Val (eventType pending)
                                  else p_type parsed);
                       r = processSSEEvent evtType parsed (state pending, session)
                   in (pending\<lparr>state := fst r\<rparr>, snd r))))
     else if trim line = [] then (pending\<lparr>eventType := []\<rparr>, session)
     else (pending, session))"

definition processPendingBuffer ::
  "(string \<Rightarrow> payload option) \<Rightarrow> PendingStream \<times> SessionLedger
     \<Rightarrow> PendingStream \<times> SessionLedger"
where
  "processPendingBuffer parse ps =
    (let lines = split_nl (buffer (fst ps));
         pending = (fst ps)\<lparr>buffer := last lines\<rparr>
     in foldl (\<lambda>acc line. processLine parse line acc) (pending, snd ps) (butlast lines))"

section \<open>Finalizer (finalizeStream)\<close>

text \<open>The fields of \<^verbatim>\<open>ApiCallRecord\<close>, each with the prefix \<open>r_\<close>.\<close>

record ApiCallRecord =
  r_session_id :: string
  r_message_id :: "string option"
  r_model :: string
  r_timestamp :: string
  r_input_tokens :: int
  r_output_tokens :: int
  r_cache_creation_input_tokens :: int
  r_cache_read_input_tokens :: int
  r_thinking_chars :: nat
  r_text_chars :: nat
  r_tool_use_chars :: nat
  r_stop_reason :: "string option"
  r_cost_usd :: jsnumber
  r_cwd :: string
  r_turn_number :: nat
  r_duration_ms :: int

text \<open>
  What the host returns to the calls one finalization makes: \<^verbatim>\<open>Date.now()\<close>,
  \<^verbatim>\<open>new Date().toISOString()\<close>, \<^verbatim>\<open>process.cwd()\<close> (\<open>None\<close> when it throws), whether the
  write of the verbose line to stderr succeeds, and whether \<^verbatim>\<open>writeRecord\<close> succeeds.
\<close>

record host =
  date_now :: int
  iso_string :: string
  process_cwd :: "string option"
  stderr_write_ok :: bool
  writeRecord_ok :: bool

text \<open>
  The module state of interceptor.ts. \<open>streams\<close> holds the \<^verbatim>\<open>PendingStream\<close> objects,
  addressed by the turn number under which the closures of \<^verbatim>\<open>wrapReader\<close> and of the
  iterator wrapper captured them: a closure keeps its object after the key has left the map.
  \<open>pendingStreams\<close> is the key sequence of the \<^verbatim>\<open>Map\<close> in insertion order, and \<open>sink\<close> is
  what \<^verbatim>\<open>writeRecord\<close> has appended to the session file (its second write, to the
  database unless \<^verbatim>\<open>noDb\<close> is set, sits in a \<^verbatim>\<open>try\<close> of its own and is not modelled).
\<close>

record engine =
  sessionId :: string
  verbose :: bool
  noDb :: bool
  turnCounter :: nat
  records :: "ApiCallRecord list"
  session :: SessionLedger
  pendingStreams :: "nat list"
  streams :: "nat \<Rightarrow> PendingStream option"
  sink :: "ApiCallRecord list"

text \<open>A call either returns or throws; both carry the module state reached.\<close>

datatype 'a outcome = Returned 'a | Threw 'a

text \<open>\<^verbatim>\<open>x || 0\<close> on an optional number field of the usage object.\<close>

definition opt_or_zero :: "int option \<Rightarrow> int" where
  "opt_or_zero v = (case v of Some n \<Rightarrow> if n \<noteq> 0 then n else 0 | None \<Rightarrow> 0)"

text \<open>The loop over \<^verbatim>\<open>state.contentBlocks\<close>: (thinkingChars, textChars, toolUseChars).\<close>

definition count_chars :: "TrackedBlock list \<Rightarrow> nat \<times> nat \<times> nat" where
  "count_chars blocks =
    foldl (\<lambda>acc block.
             if type block = ''thinking'' then (fst acc + charCount block, snd acc)
             else if type block = ''text''
               then (fst acc, fst (snd acc) + charCount block, snd (snd acc))
             else if type block = ''tool_use''
               then (fst acc, fst (snd acc), snd (snd acc) + charCount block)
             else acc)
          (0, 0, 0) blocks"

text \<open>The record literal of \<^verbatim>\<open>finalizeStream\<close>.\<close>

definition make_record ::
  "PricingConfig \<Rightarrow> string \<Rightarrow> host \<Rightarrow> string \<Rightarrow> PendingStream \<Rightarrow> ApiCallRecord"
where
  "make_record config sid h dir pending =
    (let st = state pending;
         chars = count_chars (contentBlocks st);
         cost = calculateCost config (model st)
                  (input_tokens (usage st)) (output_tokens (usage st))
                  (opt_or_zero (cache_creation_input_tokens (usage st)))
                  (opt_or_zero (cache_read_input_tokens (usage st)))
     in \<lparr>r_session_id = sid,
         r_message_id = messageId st,
         r_model = model st,
         r_timestamp = iso_string h,
         r_input_tokens = input_tokens (usage st),
         r_output_tokens = output_tokens (usage st),
         r_cache_creation_input_tokens = opt_or_zero (cache_creation_input_tokens (usage st)),
         r_cache_read_input_tokens = opt_or_zero (cache_read_input_tokens (usage st)),
         r_thinking_chars = fst chars,
         r_text_chars = fst (snd chars),
         r_tool_use_chars = snd (snd chars),
         r_stop_reason = stopReason st,
         r_cost_usd = cost,
         r_cwd = dir,
         r_turn_number = turnNum pending,
         r_duration_ms = date_now h - startTime pending\<rparr>)"

text \<open>
  \<^verbatim>\<open>finalizeStream(pending)\<close>. \<^verbatim>\<open>process.cwd()\<close> is read while the record is built, before
  anything is assigned. The record is pushed and the session totals are updated; the
  verbose line is written outside any \<^verbatim>\<open>try\<close>; \<^verbatim>\<open>writeRecord\<close> is inside one. Nothing
  here looks at \<open>pendingStreams\<close> or marks the stream as finalized.
\<close>

definition finalizeStream ::
  "PricingConfig \<Rightarrow> host \<Rightarrow> PendingStream \<Rightarrow> engine \<Rightarrow> engine outcome"
where
  "finalizeStream config h pending e =
    (case process_cwd h of
       None \<Rightarrow> Threw e
     | Some dir \<Rightarrow>
        (let rec = make_record config (sessionId e) h dir pending;
             ses = session e;
             e1 = e\<lparr>records := records e @ [rec],
                     session := ses\<lparr>
                       totalCost := js_add (totalCost ses) (r_cost_usd rec),
                       totalInput := totalInput ses + input_tokens (usage (state pending)),
                       totalOutput := totalOutput ses + output_tokens (usage (state pending)),
                       totalCacheRead := totalCacheRead ses
                          + opt_or_zero (cache_read_input_tokens (usage (state pending))),
                       totalCacheWrite := totalCacheWrite ses
                          + opt_or_zero (cache_creation_input_tokens (usage (state pending))),
                       turns := turns ses + 1,
                       lastModel := model (state pending),
                       lastTurnCost := r_cost_usd rec\<rparr>\<rparr>
         in if verbose e \<and> \<not> stderr_write_ok h then Threw e1
            else if writeRecord_ok h then Returned (e1\<lparr>sink := sink e1 @ [rec]\<rparr>)
            else Returned e1))"

section \<open>Interception shim and exit handler\<close>

definition isAnthropicMessagesCall :: "string \<Rightarrow> bool" where
  "isAnthropicMessagesCall url =
    (includes_str url ''/v1/messages'' \<and> \<not> includes_str url ''/v1/messages/batches'')"

text \<open>
  The effect of \<^verbatim>\<open>interceptedFetch\<close> on the module state: the model named in the request
  body, \<^verbatim>\<open>Date.now()\<close> and whether the response is an event stream are given.
\<close>

definition interceptedFetch :: "string \<Rightarrow> string \<Rightarrow> int \<Rightarrow> bool \<Rightarrow> engine \<Rightarrow> engine" where
  "interceptedFetch url reqModel now is_event_stream e =
    (if \<not> isAnthropicMessagesCall url then e
     else
       (let t = turnCounter e + 1;
            e1 = e\<lparr>turnCounter := t\<rparr>;
            pending = \<lparr>state = \<lparr>messageId = None, model = reqModel,
                                usage = \<lparr>input_tokens = 0, output_tokens = 0,
                                         cache_creation_input_tokens = None,
                                         cache_read_input_tokens = None\<rparr>,
                                stopReason = None, contentBlocks = []\<rparr>,
                       requestModel = reqModel, turnNum = t, startTime = now,
                       buffer = [], eventType = []\<rparr>
        in if is_event_stream
           then e1\<lparr>pendingStreams :=
                      (if t \<in> set (pendingStreams e1) then pendingStreams e1
                       else pendingStreams e1 @ [t]),
                    streams := (streams e1)(t \<mapsto> pending)\<rparr>
           else e1))"

text \<open>\<^verbatim>\<open>processPendingBuffer(pending)\<close> on the object \<open>p\<close> held for turn \<open>t\<close>.\<close>

definition process_stream ::
  "(string \<Rightarrow> payload option) \<Rightarrow> nat \<Rightarrow> PendingStream \<Rightarrow> engine \<Rightarrow> PendingStream \<times> engine"
where
  "process_stream parse t p e =
    (let r = processPendingBuffer parse (p, session e)
     in (fst r, e\<lparr>session := snd r, streams := (streams e)(t \<mapsto> fst r)\<rparr>))"

text \<open>
  The two blocks of the wrapped \<^verbatim>\<open>read\<close> (and of the wrapped iterator \<^verbatim>\<open>next\<close>, which has
  the same body). \<open>on_value\<close> is the \<^verbatim>\<open>if (result.value)\<close> block with the decoded text of
  the chunk; \<open>on_done\<close> is the \<^verbatim>\<open>if (result.done)\<close> block, \<open>rest\<close> being what the final
  \<^verbatim>\<open>decoder.decode()\<close> returns. An exception of \<^verbatim>\<open>finalizeStream\<close> skips the
  \<^verbatim>\<open>delete\<close> and is swallowed by the \<^verbatim>\<open>catch\<close>.
\<close>

definition on_value :: "(string \<Rightarrow> payload option) \<Rightarrow> nat \<Rightarrow> string \<Rightarrow> engine \<Rightarrow> engine" where
  "on_value parse t text e =
    (case streams e t of
       None \<Rightarrow> e
     | Some p \<Rightarrow> snd (process_stream parse t (p\<lparr>buffer := buffer p @ text\<rparr>) e))"

definition on_done ::
  "(string \<Rightarrow> payload option) \<Rightarrow> PricingConfig \<Rightarrow> host \<Rightarrow> nat \<Rightarrow> string \<Rightarrow> engine \<Rightarrow> engine"
where
  "on_done parse config h t rest e =
    (case streams e t of
       None \<Rightarrow> e
     | Some p \<Rightarrow>
        (let r = process_stream parse t (p\<lparr>buffer := buffer p @ rest\<rparr>) e in
         case finalizeStream config h (fst r) (snd r) of
           Returned e2 \<Rightarrow> e2\<lparr>pendingStreams := removeAll t (pendingStreams e2)\<rparr>
         | Threw e2 \<Rightarrow> e2))"

text \<open>
  The exit handler. \<open>hosts t\<close> is what the host returns while the stream of turn \<open>t\<close> is
  finalized. One round of the loop is \<open>exit_one\<close>; its \<^verbatim>\<open>catch\<close> keeps the state reached.
\<close>

definition exit_one ::
  "(string \<Rightarrow> payload option) \<Rightarrow> PricingConfig \<Rightarrow> host \<Rightarrow> nat \<Rightarrow> engine \<Rightarrow> engine"
where
  "exit_one parse config h t e =
    (case streams e t of
       None \<Rightarrow> e
     | Some p \<Rightarrow>
        (let r = process_stream parse t p e in
         case finalizeStream config h (fst r) (snd r) of
           Returned e2 \<Rightarrow> e2
         | Threw e2 \<Rightarrow> e2))"

fun exit_loop ::
  "(string \<Rightarrow> payload option) \<Rightarrow> PricingConfig \<Rightarrow> (nat \<Rightarrow> host) \<Rightarrow> nat list \<Rightarrow> engine \<Rightarrow> engine"
where
  "exit_loop parse config hosts [] e = e"
| "exit_loop parse config hosts (t # ts) e =
     exit_loop parse config hosts ts (exit_one parse config (hosts t) t e)"

definition exitHandler ::
  "(string \<Rightarrow> payload option) \<Rightarrow> PricingConfig \<Rightarrow> (nat \<Rightarrow> host) \<Rightarrow> engine \<Rightarrow> engine"
where
  "exitHandler parse config hosts e =
    (exit_loop parse config hosts (pendingStreams e) e)\<lparr>pendingStreams := []\<rparr>"

section \<open>Runs and sample inputs\<close>

text \<open>The state machine applied to an ordered list of (event type, payload) pairs.\<close>

definition apply_events ::
  "(string js \<times> payload) list \<Rightarrow> StreamState \<times> SessionLedger \<Rightarrow> StreamState \<times> SessionLedger"
where
  "apply_events evs ss = foldl (\<lambda>acc ev. processSSEEvent (fst ev) (snd ev) acc) ss evs"

text \<open>The line loop of \<^verbatim>\<open>processPendingBuffer\<close> on its own.\<close>

definition run_lines ::
  "(string \<Rightarrow> payload option) \<Rightarrow> string list \<Rightarrow> PendingStream \<times> SessionLedger
     \<Rightarrow> PendingStream \<times> SessionLedger"
where
  "run_lines parse ls ps = foldl (\<lambda>acc line. processLine parse line acc) ps ls"

text \<open>The module state a call has reached, whether it returned or threw.\<close>

fun reached :: "'a outcome \<Rightarrow> 'a" where
  "reached (Returned x) = x"
| "reached (Threw x) = x"

text \<open>Payloads with no property set, and the payloads of a short exchange.\<close>

definition no_usage :: usage_payload where
  "no_usage = \<lparr>u_input_tokens = Undefined, u_output_tokens = Undefined,
               u_cache_creation_input_tokens = Undefined, u_cache_read_input_tokens = Undefined\<rparr>"

definition no_delta :: delta_payload where
  "no_delta = \<lparr>d_text = Undefined, d_thinking = Undefined, d_partial_json = Undefined,
               d_stop_reason = Undefined\<rparr>"

definition no_payload :: payload where
  "no_payload = \<lparr>p_type = Undefined, p_message = Undefined, p_content_block = Undefined,
                 p_index = Undefined, p_delta = Undefined, p_usage = Undefined\<rparr>"

definition ex_message_start :: payload where
  "ex_message_start = no_payload\<lparr>p_type := Val ''message_start'',
     p_message := Val \<lparr>m_id = Val ''msg_01'', m_model = Val ''claude-opus-4-6'',
                       m_usage = Val (no_usage\<lparr>u_input_tokens := Val 100,
                                               u_output_tokens := Val 0\<rparr>)\<rparr>\<rparr>"

definition ex_block_start :: payload where
  "ex_block_start = no_payload\<lparr>p_type := Val ''content_block_start'', p_index := Val 0,
     p_content_block := Val \<lparr>b_type = Val ''text''\<rparr>\<rparr>"

definition ex_text_delta :: "string \<Rightarrow> payload" where
  "ex_text_delta s = no_payload\<lparr>p_type := Val ''content_block_delta'', p_index := Val 0,
     p_delta := Val (no_delta\<lparr>d_text := Val s\<rparr>)\<rparr>"

definition ex_message_delta :: payload where
  "ex_message_delta = no_payload\<lparr>p_type := Val ''message_delta'',
     p_delta := Val (no_delta\<lparr>d_stop_reason := Val ''end_turn''\<rparr>),
     p_usage := Val (no_usage\<lparr>u_output_tokens := Val 50\<rparr>)\<rparr>"

definition ex_usage_only_delta :: payload where
  "ex_usage_only_delta = no_payload\<lparr>p_type := Val ''message_delta'', p_usage := Val no_usage\<rparr>"

text \<open>The stream state and the session object as \<^verbatim>\<open>interceptedFetch\<close> and the module create them.\<close>

definition new_state :: "string \<Rightarrow> StreamState" where
  "new_state reqModel = \<lparr>messageId = None, model = reqModel,
     usage = \<lparr>input_tokens = 0, output_tokens = 0,
              cache_creation_input_tokens = None, cache_read_input_tokens = None\<rparr>,
     stopReason = None, contentBlocks = []\<rparr>"

definition new_session :: SessionLedger where
  "new_session = \<lparr>totalCost = Num 0, totalInput = 0, totalOutput = 0, totalCacheRead = 0,
     totalCacheWrite = 0, turns = 0, lastModel = ''unknown'', lastTurnCost = Num 0\<rparr>"

definition ex_block :: "nat \<Rightarrow> TrackedBlock" where
  "ex_block n = \<lparr>index = 0, type = ''text'', charCount = n\<rparr>"

text \<open>The inline fallback table of \<^verbatim>\<open>loadPricing\<close>.\<close>

definition fallback_pricing :: PricingConfig where
  "fallback_pricing = \<lparr>version = ''2026-02-21-fallback'',
     models = [(''claude-opus-4-6'',
                  \<lparr>input = 5, output = 25, cacheWrite = 6.25, cacheRead = 0.5\<rparr>),
               (''claude-sonnet-4-6'',
                  \<lparr>input = 3, output = 15, cacheWrite = 3.75, cacheRead = 0.3\<rparr>),
               (''claude-haiku-4-5'',
                  \<lparr>input = 1, output = 5, cacheWrite = 1.25, cacheRead = 0.1\<rparr>)]\<rparr>"

text \<open>The module state after \<^verbatim>\<open>initInterceptor\<close>, a host on which every call succeeds, and
  one on which \<^verbatim>\<open>process.cwd()\<close> throws.\<close>

definition new_engine :: "string \<Rightarrow> bool \<Rightarrow> bool \<Rightarrow> engine" where
  "new_engine sid v n = \<lparr>sessionId = sid, verbose = v, noDb = n, turnCounter = 0,
     records = [], session = new_session, pendingStreams = [], streams = (\<lambda>t. None),
     sink = []\<rparr>"

definition ex_host :: host where
  "ex_host = \<lparr>date_now = 1700000001500, iso_string = ''2023-11-14T22:13:21.500Z'',
     process_cwd = Some ''/work'', stderr_write_ok = True, writeRecord_ok = True\<rparr>"

definition ex_host_no_cwd :: host where
  "ex_host_no_cwd = ex_host\<lparr>process_cwd := None\<rparr>"

definition ex_pending :: "nat \<Rightarrow> StreamState \<Rightarrow> PendingStream" where
  "ex_pending t st = \<lparr>state = st, requestModel = ''claude-opus-4-6'', turnNum = t,
     startTime = 1700000000000, buffer = [], eventType = []\<rparr>"

text \<open>
  What the exit handler owes the stream of turn \<open>t\<close>: the record of its state after the
  complete lines still in its buffer have been processed, unless \<^verbatim>\<open>process.cwd()\<close> throws
  while that stream is finalized; and what of it reaches \<^verbatim>\<open>writeRecord\<close>.
\<close>

definition exit_records ::
  "(string \<Rightarrow> payload option) \<Rightarrow> PricingConfig \<Rightarrow> (nat \<Rightarrow> host) \<Rightarrow> engine \<Rightarrow> nat
     \<Rightarrow> ApiCallRecord list"
where
  "exit_records parse config hosts e t =
    (case streams e t of
       None \<Rightarrow> []
     | Some p \<Rightarrow>
        (case process_cwd (hosts t) of
           None \<Rightarrow> []
         | Some dir \<Rightarrow>
            [make_record config (sessionId e) (hosts t) dir
               (fst (processPendingBuffer parse (p, session e)))]))"

definition exit_written ::
  "(string \<Rightarrow> payload option) \<Rightarrow> PricingConfig \<Rightarrow> (nat \<Rightarrow> host) \<Rightarrow> engine \<Rightarrow> nat
     \<Rightarrow> ApiCallRecord list"
where
  "exit_written parse config hosts e t =
    (if verbose e \<and> \<not> stderr_write_ok (hosts t) then []
     else if writeRecord_ok (hosts t) then exit_records parse config hosts e t
     else [])"

text \<open>
  \<^verbatim>\<open>JSON.parse\<close> on the payload texts of the sample exchange; every other text of the
  samples is one it rejects.
\<close>

definition sample_parse :: "string \<Rightarrow> payload option" where
  \<open>sample_parse s =
    (if s = ''{"type":"message_start","message":{"id":"msg_01","model":"claude-opus-4-6","usage":{"input_tokens":100,"output_tokens":0}}}''
       then Some ex_message_start
     else if s = ''{"type":"content_block_start","index":0,"content_block":{"type":"text"}}''
       then Some ex_block_start
     else if s = ''{"type":"content_block_delta","index":0,"delta":{"text":"hello"}}''
       then Some (ex_text_delta ''hello'')
     else if s = ''{"type":"content_block_delta","index":0,"delta":{"text":"world!!"}}''
       then Some (ex_text_delta ''world!!'')
     else if s = ''{"type":"message_delta","delta":{"stop_reason":"end_turn"},"usage":{"output_tokens":50}}''
       then Some ex_message_delta
     else None)\<close>

definition line_message_start :: string where
  \<open>line_message_start = ''data: {"type":"message_start","message":{"id":"msg_01","model":"claude-opus-4-6","usage":{"input_tokens":100,"output_tokens":0}}}''\<close>

definition line_block_start :: string where
  \<open>line_block_start = ''data: {"type":"content_block_start","index":0,"content_block":{"type":"text"}}''\<close>

definition line_delta_hello :: string where
  \<open>line_delta_hello = ''data: {"type":"content_block_delta","index":0,"delta":{"text":"hello"}}''\<close>

definition line_delta_world :: string where
  \<open>line_delta_world = ''data: {"type":"content_block_delta","index":0,"delta":{"text":"world!!"}}''\<close>

definition line_message_delta :: string where
  \<open>line_message_delta = ''data: {"type":"message_delta","delta":{"stop_reason":"end_turn"},"usage":{"output_tokens":50}}''\<close>

definition line_truncated :: string where
  \<open>line_truncated = ''data: {"type":"content_block_delta","index":0,"del''\<close>

text \<open>Lines joined with a line break after each.\<close>

definition unlines :: "string list \<Rightarrow> string" where
  "unlines ls = concat (map (\<lambda>l. l @ [CHR 0x0A]) ls)"

text \<open>The module state with one, and with three, event streams open.\<close>

definition ex_url :: string where
  "ex_url = ''https://api.anthropic.com/v1/messages?beta=true''"

definition ex_engine1 :: engine where
  "ex_engine1 = interceptedFetch ex_url ''claude-opus-4-6'' 1700000000000 True
                  (new_engine ''s1'' False False)"

definition ex_engine3 :: engine where
  "ex_engine3 = interceptedFetch ex_url ''claude-haiku-4-5'' 1700000000300 True
                  (interceptedFetch ex_url ''claude-sonnet-4-6'' 1700000000200 True ex_engine1)"

definition ex_hosts :: "nat \<Rightarrow> host" where
  "ex_hosts t = (if t = 2 then ex_host_no_cwd else ex_host)"

text \<open>A stream cut off after \<^verbatim>\<open>message_start\<close> and two deltas, fed to the first of three
  open streams; a whole exchange, and the same exchange cut into three chunks inside lines.\<close>

definition ex_partial :: string where
  "ex_partial = unlines [line_message_start, line_delta_hello, line_delta_world]"

definition ex_engine_partial :: engine where
  "ex_engine_partial = on_value sample_parse 1 ex_partial ex_engine3"

definition ex_transcript :: string where
  "ex_transcript = unlines [''event: message_start'', line_message_start, [],
     line_block_start, line_delta_hello, line_delta_world, line_message_delta]"

definition ex_chunks :: "string list" where
  "ex_chunks = [take 30 ex_transcript, take 200 (drop 30 ex_transcript), drop 230 ex_transcript]"

text \<open>
  Two stream states that differ only by one block \<open>nb\<close> of count 0 that the first has in
  addition, behind an earlier block of the same index.
\<close>

definition shadowed :: "TrackedBlock \<Rightarrow> StreamState \<Rightarrow> StreamState \<Rightarrow> bool" where
  "shadowed nb s1 s2 =
    (charCount nb = 0 \<and> messageId s1 = messageId s2 \<and> model s1 = model s2 \<and>
     usage s1 = usage s2 \<and> stopReason s1 = stopReason s2 \<and>
     (\<exists>bs1 bs2. contentBlocks s1 = bs1 @ nb # bs2 \<and> contentBlocks s2 = bs1 @ bs2 \<and>
        (\<exists>x\<in>set bs1. index x = index nb)))"

section \<open>Stream state machine: lemmas\<close>

lemma processSSEEvent_other:
  assumes "evt \<noteq> Val ''message_start''" "evt \<noteq> Val ''content_block_start''"
    "evt \<noteq> Val ''content_block_delta''" "evt \<noteq> Val ''message_delta''"
  shows "processSSEEvent evt d ss = ss"
  using assms by (simp add: processSSEEvent_def)

lemma message_delta_output:
  "p_usage d = Val u \<Longrightarrow> u_output_tokens u = Val n \<Longrightarrow>
   output_tokens (usage (fst (processSSEEvent (Val ''message_delta'') d (st, ses)))) = n"
  by (simp add: processSSEEvent_def Let_def nullish_or_def split: js.splits)

lemma message_delta_stop:
  "p_delta d = Val dl \<Longrightarrow> d_stop_reason dl = Val r \<Longrightarrow> r \<noteq> [] \<Longrightarrow>
   stopReason (fst (processSSEEvent (Val ''message_delta'') d (st, ses))) = Some r"
  by (simp add: processSSEEvent_def Let_def split: js.splits)

lemma message_delta_input:
  "input_tokens (usage (fst (processSSEEvent (Val ''message_delta'') d ss)))
     = input_tokens (usage (fst ss))"
  by (simp add: processSSEEvent_def Let_def split: js.splits)

lemma message_start_usage:
  "p_message d = Val msg \<Longrightarrow> m_usage msg = Val u \<Longrightarrow>
   usage (fst (processSSEEvent (Val ''message_start'') d ss)) =
     \<lparr>input_tokens = or_zero (u_input_tokens u), output_tokens = or_zero (u_output_tokens u),
      cache_creation_input_tokens = Some (or_zero (u_cache_creation_input_tokens u)),
      cache_read_input_tokens = Some (or_zero (u_cache_read_input_tokens u))\<rparr>"
  by (simp add: processSSEEvent_def Let_def split: js.splits)

lemma usage_kept:
  "t \<noteq> Val ''message_start'' \<Longrightarrow> t \<noteq> Val ''message_delta'' \<Longrightarrow>
   usage (fst (processSSEEvent t d ss)) = usage (fst ss)"
  by (simp add: processSSEEvent_def Let_def split: js.splits)

lemma apply_events_simps [simp]:
  "apply_events [] ss = ss"
  "apply_events (ev # evs) ss = apply_events evs (processSSEEvent (fst ev) (snd ev) ss)"
  "apply_events (evs @ evs') ss = apply_events evs' (apply_events evs ss)"
  by (simp_all add: apply_events_def)

lemma apply_events_usage_kept:
  "\<forall>ev\<in>set evs. fst ev \<noteq> Val ''message_start'' \<and> fst ev \<noteq> Val ''message_delta'' \<Longrightarrow>
   usage (fst (apply_events evs ss)) = usage (fst ss)"
proof (induction evs arbitrary: ss)
  case Nil
  show ?case by simp
next
  case (Cons ev evs)
  then show ?case by (simp add: usage_kept)
qed

lemma add_chars_none:
  "\<forall>x\<in>set bs. Val (index x) \<noteq> i \<Longrightarrow> add_chars i n bs = bs"
  by (induction bs) auto

lemma add_chars_first:
  "\<forall>x\<in>set bs1. index x \<noteq> i \<Longrightarrow> index b = i \<Longrightarrow>
   add_chars (Val i) n (bs1 @ b # bs2) = bs1 @ b\<lparr>charCount := charCount b + n\<rparr> # bs2"
  by (induction bs1) auto

section \<open>Claims on the stream state machine\<close>

text \<open>
  C9. An event whose type is none of the four the \<^verbatim>\<open>switch\<close> knows leaves the stream state
  (message id, model, the four usage counts, stop reason, every tracked block and its
  character count) and the session object as they were. In particular such an event between
  two \<^verbatim>\<open>content_block_delta\<close> events changes nothing: the run with it equals the run
  without it.
\<close>

theorem unknown_event_is_noop:
  assumes "evt \<noteq> Val ''message_start''" and "evt \<noteq> Val ''content_block_start''"
    and "evt \<noteq> Val ''content_block_delta''" and "evt \<noteq> Val ''message_delta''"
  shows "processSSEEvent evt d (st, ses) = (st, ses) \<and>
         processSSEEvent (Val ''content_block_delta'') d2
           (processSSEEvent evt d (processSSEEvent (Val ''content_block_delta'') d1 (st, ses)))
         = processSSEEvent (Val ''content_block_delta'') d2
             (processSSEEvent (Val ''content_block_delta'') d1 (st, ses))"
  using assms by (simp add: processSSEEvent_other)

theorem unknown_event_is_noop_witness:
  "Val ''ping'' \<noteq> Val ''message_start'' \<and> Val ''ping'' \<noteq> Val ''content_block_start'' \<and>
   Val ''ping'' \<noteq> Val ''content_block_delta'' \<and> Val ''ping'' \<noteq> Val ''message_delta'' \<and>
   processSSEEvent (Val ''ping'') no_payload
       ((new_state ''m'')\<lparr>contentBlocks := [ex_block 5]\<rparr>, new_session)
     = ((new_state ''m'')\<lparr>contentBlocks := [ex_block 5]\<rparr>, new_session) \<and>
   contentBlocks (fst (processSSEEvent (Val ''content_block_delta'') (ex_text_delta ''1234567'')
       (processSSEEvent (Val ''ping'') no_payload
         (processSSEEvent (Val ''content_block_delta'') (ex_text_delta ''12345'')
            ((new_state ''m'')\<lparr>contentBlocks := [ex_block 0]\<rparr>, new_session)))))
     = [ex_block 12]"
  using unknown_event_is_noop [of "Val ''ping''" no_payload "(new_state ''m'')\<lparr>contentBlocks := [ex_block 5]\<rparr>" new_session]
    unknown_event_is_noop [of "Val ''ping''" no_payload "(new_state ''m'')\<lparr>contentBlocks := [ex_block 0]\<rparr>" new_session "ex_text_delta ''1234567''" "ex_text_delta ''12345''"]
  by (simp add: processSSEEvent_def ex_text_delta_def no_payload_def no_delta_def or_str_def ex_block_def new_state_def)

text \<open>
  C10. A \<^verbatim>\<open>message_delta\<close> event leaves the input token count, both cache counts, the
  message id, the model, the block list and the session object unchanged, whatever its
  payload; and when its usage object has no \<^verbatim>\<open>output_tokens\<close> property the output token
  count is unchanged too. Only the output token count and the stop reason can change.
\<close>

theorem message_delta_frame:
  "input_tokens (usage (fst (processSSEEvent (Val ''message_delta'') d (st, ses))))
      = input_tokens (usage st) \<and>
   cache_creation_input_tokens (usage (fst (processSSEEvent (Val ''message_delta'') d (st, ses))))
      = cache_creation_input_tokens (usage st) \<and>
   cache_read_input_tokens (usage (fst (processSSEEvent (Val ''message_delta'') d (st, ses))))
      = cache_read_input_tokens (usage st) \<and>
   messageId (fst (processSSEEvent (Val ''message_delta'') d (st, ses))) = messageId st \<and>
   model (fst (processSSEEvent (Val ''message_delta'') d (st, ses))) = model st \<and>
   contentBlocks (fst (processSSEEvent (Val ''message_delta'') d (st, ses))) = contentBlocks st \<and>
   snd (processSSEEvent (Val ''message_delta'') d (st, ses)) = ses \<and>
   (p_usage d = Val u \<and> u_output_tokens u = Undefined \<longrightarrow>
      output_tokens (usage (fst (processSSEEvent (Val ''message_delta'') d (st, ses))))
        = output_tokens (usage st))"
  by (simp add: processSSEEvent_def Let_def nullish_or_def split: js.splits)

theorem message_delta_frame_witness:
  "p_usage ex_usage_only_delta = Val no_usage \<and> u_output_tokens no_usage = Undefined \<and>
   output_tokens (usage (fst (processSSEEvent (Val ''message_delta'') ex_usage_only_delta
       ((new_state ''m'')\<lparr>usage := (usage (new_state ''m''))\<lparr>output_tokens := 7\<rparr>\<rparr>, new_session)))) = 7"
  using message_delta_frame [of ex_usage_only_delta
      "(new_state ''m'')\<lparr>usage := (usage (new_state ''m''))\<lparr>output_tokens := 7\<rparr>\<rparr>" new_session no_usage]
  by (simp add: ex_usage_only_delta_def no_payload_def no_usage_def new_state_def)

lemma delta_blocks:
  "p_delta d = Val dl \<Longrightarrow> p_index d = Val i \<Longrightarrow>
   processSSEEvent (Val ''content_block_delta'') d (st, ses) =
     (st\<lparr>contentBlocks := add_chars (Val i)
        (length (or_str (d_text dl) (or_str (d_thinking dl) (or_str (d_partial_json dl) ''''))))
        (contentBlocks st)\<rparr>, ses)"
  by (simp add: processSSEEvent_def Let_def)

lemma delta_no_block:
  "\<forall>x\<in>set (contentBlocks st). Val (index x) \<noteq> p_index d \<Longrightarrow>
   processSSEEvent (Val ''content_block_delta'') d (st, ses) = (st, ses)"
  by (simp add: processSSEEvent_def Let_def add_chars_none split: js.splits)

lemma delta_text_length:
  "d_text dl = Val s \<Longrightarrow> s \<noteq> [] \<Longrightarrow>
   length (or_str (d_text dl) (or_str (d_thinking dl) (or_str (d_partial_json dl) ''''))) = length s"
  by (simp add: or_str_def)

lemma delta_single_length:
  "(d_text dl = Val s \<and> d_thinking dl = Undefined \<and> d_partial_json dl = Undefined) \<or>
   (d_text dl = Undefined \<and> d_thinking dl = Val s \<and> d_partial_json dl = Undefined) \<or>
   (d_text dl = Undefined \<and> d_thinking dl = Undefined \<and> d_partial_json dl = Val s) \<Longrightarrow>
   length (or_str (d_text dl) (or_str (d_thinking dl) (or_str (d_partial_json dl) ''''))) = length s"
  by (auto simp: or_str_def)

lemma delta_first_block:
  assumes "contentBlocks st = bs1 @ b # bs2" "\<forall>x\<in>set bs1. index x \<noteq> i" "index b = i"
    "p_index d = Val i" "p_delta d = Val dl"
    "length (or_str (d_text dl) (or_str (d_thinking dl) (or_str (d_partial_json dl) ''''))) = n"
  shows "processSSEEvent (Val ''content_block_delta'') d (st, ses)
      = (st\<lparr>contentBlocks := bs1 @ b\<lparr>charCount := charCount b + n\<rparr> # bs2\<rparr>, ses)"
  using assms by (simp add: delta_blocks add_chars_first)

text \<open>
  C5. Let \<open>b\<close> be the block that \<^verbatim>\<open>find\<close> returns for index \<open>i\<close>: the first block of the
  list with that index. Two \<^verbatim>\<open>content_block_delta\<close> events on index \<open>i\<close> whose delta texts
  have lengths 5 and 7 raise the character count of \<open>b\<close> by 12 and change nothing else.
  In general one such event whose delta carries exactly one of \<^verbatim>\<open>text\<close>,
  \<^verbatim>\<open>thinking\<close>, \<^verbatim>\<open>partial_json\<close> raises the count of \<open>b\<close> by the length of that field.
  When no block has the index of the payload the event changes nothing.
\<close>

theorem block_accumulation:
  "(contentBlocks st = bs1 @ b # bs2 \<and> (\<forall>x\<in>set bs1. index x \<noteq> i) \<and> index b = i \<and>
    p_index d1 = Val i \<and> p_delta d1 = Val dl1 \<and> d_text dl1 = Val s1 \<and> length s1 = 5 \<and>
    p_index d2 = Val i \<and> p_delta d2 = Val dl2 \<and> d_text dl2 = Val s2 \<and> length s2 = 7
    \<longrightarrow>
      processSSEEvent (Val ''content_block_delta'') d2
        (processSSEEvent (Val ''content_block_delta'') d1 (st, ses))
      = (st\<lparr>contentBlocks := bs1 @ b\<lparr>charCount := charCount b + 12\<rparr> # bs2\<rparr>, ses))
   \<and>
   (contentBlocks st = bs1 @ b # bs2 \<and> (\<forall>x\<in>set bs1. index x \<noteq> i) \<and> index b = i \<and>
    p_index d = Val i \<and> p_delta d = Val dl \<and>
    ((d_text dl = Val s \<and> d_thinking dl = Undefined \<and> d_partial_json dl = Undefined) \<or>
     (d_text dl = Undefined \<and> d_thinking dl = Val s \<and> d_partial_json dl = Undefined) \<or>
     (d_text dl = Undefined \<and> d_thinking dl = Undefined \<and> d_partial_json dl = Val s))
    \<longrightarrow>
      processSSEEvent (Val ''content_block_delta'') d (st, ses)
      = (st\<lparr>contentBlocks := bs1 @ b\<lparr>charCount := charCount b + length s\<rparr> # bs2\<rparr>, ses))
   \<and>
   ((\<forall>x\<in>set (contentBlocks st). Val (index x) \<noteq> p_index d0)
    \<longrightarrow> processSSEEvent (Val ''content_block_delta'') d0 (st, ses) = (st, ses))"
proof (intro conjI impI)
  assume a: "contentBlocks st = bs1 @ b # bs2 \<and> (\<forall>x\<in>set bs1. index x \<noteq> i) \<and> index b = i \<and>
    p_index d1 = Val i \<and> p_delta d1 = Val dl1 \<and> d_text dl1 = Val s1 \<and> length s1 = 5 \<and>
    p_index d2 = Val i \<and> p_delta d2 = Val dl2 \<and> d_text dl2 = Val s2 \<and> length s2 = 7"
  then have n1: "s1 \<noteq> []" and n2: "s2 \<noteq> []" by auto
  have t1: "length (or_str (d_text dl1) (or_str (d_thinking dl1) (or_str (d_partial_json dl1) ''''))) = 5"
    using a n1 by (simp add: or_str_def)
  have t2: "length (or_str (d_text dl2) (or_str (d_thinking dl2) (or_str (d_partial_json dl2) ''''))) = 7"
    using a n2 by (simp add: or_str_def)
  let ?b1 = "b\<lparr>charCount := charCount b + 5\<rparr>"
  let ?st1 = "st\<lparr>contentBlocks := bs1 @ ?b1 # bs2\<rparr>"
  have step1: "processSSEEvent (Val ''content_block_delta'') d1 (st, ses) = (?st1, ses)"
    using a t1 by (intro delta_first_block [where i = i and dl = dl1]) simp_all
  have step2: "processSSEEvent (Val ''content_block_delta'') d2 (?st1, ses)
      = (?st1\<lparr>contentBlocks := bs1 @ ?b1\<lparr>charCount := charCount ?b1 + 7\<rparr> # bs2\<rparr>, ses)"
    using a t2 by (intro delta_first_block [where i = i and dl = dl2]) simp_all
  show "processSSEEvent (Val ''content_block_delta'') d2
        (processSSEEvent (Val ''content_block_delta'') d1 (st, ses))
      = (st\<lparr>contentBlocks := bs1 @ b\<lparr>charCount := charCount b + 12\<rparr> # bs2\<rparr>, ses)"
    by (simp add: step1 step2)
next
  assume a: "contentBlocks st = bs1 @ b # bs2 \<and> (\<forall>x\<in>set bs1. index x \<noteq> i) \<and> index b = i \<and>
    p_index d = Val i \<and> p_delta d = Val dl \<and>
    ((d_text dl = Val s \<and> d_thinking dl = Undefined \<and> d_partial_json dl = Undefined) \<or>
     (d_text dl = Undefined \<and> d_thinking dl = Val s \<and> d_partial_json dl = Undefined) \<or>
     (d_text dl = Undefined \<and> d_thinking dl = Undefined \<and> d_partial_json dl = Val s))"
  then have "length (or_str (d_text dl) (or_str (d_thinking dl) (or_str (d_partial_json dl) '''')))
      = length s"
    by (intro delta_single_length) simp
  with a show "processSSEEvent (Val ''content_block_delta'') d (st, ses)
      = (st\<lparr>contentBlocks := bs1 @ b\<lparr>charCount := charCount b + length s\<rparr> # bs2\<rparr>, ses)"
    by (intro delta_first_block [where i = i and dl = dl]) simp_all
next
  assume "\<forall>x\<in>set (contentBlocks st). Val (index x) \<noteq> p_index d0"
  then show "processSSEEvent (Val ''content_block_delta'') d0 (st, ses) = (st, ses)"
    by (rule delta_no_block)
qed

theorem block_accumulation_witness:
  "processSSEEvent (Val ''content_block_delta'') (ex_text_delta ''world!!'')
     (processSSEEvent (Val ''content_block_delta'') (ex_text_delta ''hello'')
        ((new_state ''m'')\<lparr>contentBlocks := [ex_block 0]\<rparr>, new_session))
     = ((new_state ''m'')\<lparr>contentBlocks := [ex_block 12]\<rparr>, new_session) \<and>
   processSSEEvent (Val ''content_block_delta'') (ex_text_delta ''abc'')
        ((new_state ''m'')\<lparr>contentBlocks := [ex_block 4]\<rparr>, new_session)
     = ((new_state ''m'')\<lparr>contentBlocks := [ex_block 7]\<rparr>, new_session) \<and>
   processSSEEvent (Val ''content_block_delta'') (ex_text_delta ''abc'') (new_state ''m'', new_session)
     = (new_state ''m'', new_session)"
  using block_accumulation [of "(new_state ''m'')\<lparr>contentBlocks := [ex_block 0]\<rparr>" "[]" "ex_block 0" "[]" 0
      "ex_text_delta ''hello''" "no_delta\<lparr>d_text := Val ''hello''\<rparr>" "''hello''"
      "ex_text_delta ''world!!''" "no_delta\<lparr>d_text := Val ''world!!''\<rparr>" "''world!!''" new_session]
    block_accumulation [of "(new_state ''m'')\<lparr>contentBlocks := [ex_block 4]\<rparr>" "[]" "ex_block 4" "[]" 0
      _ _ _ _ _ _ _ "ex_text_delta ''abc''" "no_delta\<lparr>d_text := Val ''abc''\<rparr>" "''abc''"]
    block_accumulation [of "new_state ''m''" _ _ _ _ _ _ _ _ _ _ new_session _ _ _ "ex_text_delta ''abc''"]
  by (simp add: ex_text_delta_def no_payload_def no_delta_def ex_block_def new_state_def)

section \<open>Finalizer lemmas; claims on repeated block starts and on the correction\<close>

lemma finalizeStream_records:
  "process_cwd h = Some dir \<Longrightarrow>
   records (reached (finalizeStream config h p e)) =
     records e @ [make_record config (sessionId e) h dir p]"
  by (simp add: finalizeStream_def Let_def)

lemma finalizeStream_no_cwd:
  "process_cwd h = None \<Longrightarrow> finalizeStream config h p e = Threw e"
  by (simp add: finalizeStream_def)

lemma make_record_tokens:
  "r_input_tokens (make_record config sid h dir p) = input_tokens (usage (state p))"
  "r_output_tokens (make_record config sid h dir p) = output_tokens (usage (state p))"
  "r_cache_creation_input_tokens (make_record config sid h dir p)
     = opt_or_zero (cache_creation_input_tokens (usage (state p)))"
  "r_cache_read_input_tokens (make_record config sid h dir p)
     = opt_or_zero (cache_read_input_tokens (usage (state p)))"
  "r_turn_number (make_record config sid h dir p) = turnNum p"
  "r_stop_reason (make_record config sid h dir p) = stopReason (state p)"
  by (simp_all add: make_record_def Let_def)

lemma make_record_chars:
  "r_thinking_chars (make_record config sid h dir p) = fst (count_chars (contentBlocks (state p)))"
  "r_text_chars (make_record config sid h dir p) = fst (snd (count_chars (contentBlocks (state p))))"
  "r_tool_use_chars (make_record config sid h dir p) = snd (snd (count_chars (contentBlocks (state p))))"
  by (simp_all add: make_record_def Let_def)

lemma count_chars_snoc_zero:
  "charCount nb = 0 \<Longrightarrow> count_chars (bs @ [nb]) = count_chars bs"
  by (simp add: count_chars_def)

lemma add_chars_append:
  "\<exists>x\<in>set bs. index x = i \<Longrightarrow> add_chars (Val i) n (bs @ ys) = add_chars (Val i) n bs @ ys"
  by (induction bs) auto

lemma add_chars_match_prefix:
  "\<exists>x\<in>set bs. Val (index x) = idx \<Longrightarrow> add_chars idx n (bs @ ys) = add_chars idx n bs @ ys"
  by (induction bs) auto

lemma add_chars_nomatch_prefix:
  "\<forall>x\<in>set bs. Val (index x) \<noteq> idx \<Longrightarrow> add_chars idx n (bs @ ys) = bs @ add_chars idx n ys"
  by (induction bs) auto

lemma add_chars_indices: "map index (add_chars idx n bs) = map index bs"
  by (induction bs) auto

lemma add_chars_shadow:
  assumes "\<exists>x\<in>set bs1. index x = index nb"
  shows "\<exists>bs1' bs2'. add_chars idx n (bs1 @ nb # bs2) = bs1' @ nb # bs2' \<and>
           add_chars idx n (bs1 @ bs2) = bs1' @ bs2' \<and> (\<exists>x\<in>set bs1'. index x = index nb)"
proof (cases "\<exists>x\<in>set bs1. Val (index x) = idx")
  case True
  have "set (map index (add_chars idx n bs1)) = set (map index bs1)"
    by (simp only: add_chars_indices)
  with assms have "\<exists>x\<in>set (add_chars idx n bs1). index x = index nb"
    by (metis (no_types, lifting) image_iff list.set_map)
  with True show ?thesis
    by (intro exI [of _ "add_chars idx n bs1"] exI [of _ bs2])
       (simp add: add_chars_match_prefix)
next
  case False
  then have nm: "\<forall>x\<in>set bs1. Val (index x) \<noteq> idx" by simp
  with assms have "Val (index nb) \<noteq> idx" by metis
  with nm assms show ?thesis
    by (intro exI [of _ bs1] exI [of _ "add_chars idx n bs2"])
       (simp add: add_chars_nomatch_prefix)
qed

lemma shadowed_step:
  assumes sh: "shadowed nb s1 s2"
    and ix: "t = Val ''content_block_start'' \<longrightarrow> (\<exists>j. p_index d = Val j)"
  shows "shadowed nb (fst (processSSEEvent t d (s1, ses))) (fst (processSSEEvent t d (s2, ses)))
       \<and> snd (processSSEEvent t d (s1, ses)) = snd (processSSEEvent t d (s2, ses))"
proof -
  from sh obtain bs1 bs2 where z: "charCount nb = 0"
    and f: "messageId s1 = messageId s2" "model s1 = model s2" "usage s1 = usage s2"
       "stopReason s1 = stopReason s2"
    and b: "contentBlocks s1 = bs1 @ nb # bs2" "contentBlocks s2 = bs1 @ bs2"
       "\<exists>x\<in>set bs1. index x = index nb"
    by (auto simp: shadowed_def)
  consider (ms) "t = Val ''message_start''" | (cs) "t = Val ''content_block_start''"
    | (cd) "t = Val ''content_block_delta''" | (md) "t = Val ''message_delta''"
    | (other) "t \<noteq> Val ''message_start''" "t \<noteq> Val ''content_block_start''"
        "t \<noteq> Val ''content_block_delta''" "t \<noteq> Val ''message_delta''"
    by blast
  then show ?thesis
  proof cases
    case ms
    show ?thesis
      using z f b by (auto simp: ms processSSEEvent_def Let_def shadowed_def split: js.splits)
  next
    case cs
    with ix obtain j where j: "p_index d = Val j" by auto
    show ?thesis
    proof (cases "p_content_block d")
      case (Val blk)
      let ?n = "\<lparr>index = j, type = or_str (b_type blk) ''text'', charCount = 0\<rparr>"
      have "contentBlocks s1 @ [?n] = bs1 @ nb # (bs2 @ [?n])"
        "contentBlocks s2 @ [?n] = bs1 @ (bs2 @ [?n])"
        using b by simp_all
      then show ?thesis
        using z f b(3) Val j
        by (simp add: cs processSSEEvent_def Let_def shadowed_def nullish_or_def) blast
    qed (use sh in \<open>simp_all add: cs processSSEEvent_def Let_def\<close>)
  next
    case cd
    show ?thesis
    proof (cases "p_delta d")
      case (Val delta)
      show ?thesis
      proof (cases "p_index d = Undefined")
        case True
        with Val sh show ?thesis by (simp add: cd processSSEEvent_def Let_def)
      next
        case False
        let ?n = "length (or_str (d_text delta)
                    (or_str (d_thinking delta) (or_str (d_partial_json delta) '''')))"
        from add_chars_shadow [OF b(3), of "p_index d" ?n bs2]
        obtain c1 c2 where "add_chars (p_index d) ?n (bs1 @ nb # bs2) = c1 @ nb # c2"
          "add_chars (p_index d) ?n (bs1 @ bs2) = c1 @ c2" "\<exists>x\<in>set c1. index x = index nb"
          by blast
        then show ?thesis
          using z f b Val False
          by (simp add: cd processSSEEvent_def Let_def shadowed_def) blast
      qed
    qed (use sh in \<open>simp_all add: cd processSSEEvent_def Let_def\<close>)
  next
    case md
    show ?thesis
      using z f b by (auto simp: md processSSEEvent_def Let_def shadowed_def split: js.splits)
  next
    case other
    then show ?thesis using sh by (simp add: processSSEEvent_other)
  qed
qed

lemma shadowed_run:
  "shadowed nb s1 s2 \<Longrightarrow>
   \<forall>ev\<in>set evs. fst ev = Val ''content_block_start'' \<longrightarrow> (\<exists>j. p_index (snd ev) = Val j) \<Longrightarrow>
   shadowed nb (fst (apply_events evs (s1, ses))) (fst (apply_events evs (s2, ses))) \<and>
   snd (apply_events evs (s1, ses)) = snd (apply_events evs (s2, ses))"
proof (induction evs arbitrary: s1 s2 ses)
  case Nil
  then show ?case by simp
next
  case (Cons ev evs)
  let ?r1 = "processSSEEvent (fst ev) (snd ev) (s1, ses)"
  let ?r2 = "processSSEEvent (fst ev) (snd ev) (s2, ses)"
  have st: "shadowed nb (fst ?r1) (fst ?r2) \<and> snd ?r1 = snd ?r2"
    using Cons.prems by (intro shadowed_step) simp_all
  obtain a1 c1 where r1: "?r1 = (a1, c1)" by (cases ?r1)
  obtain a2 c2 where r2: "?r2 = (a2, c2)" by (cases ?r2)
  from st have sh: "shadowed nb a1 a2" and c: "c2 = c1" by (simp_all add: r1 r2)
  have "shadowed nb (fst (apply_events evs (a1, c1))) (fst (apply_events evs (a2, c1))) \<and>
        snd (apply_events evs (a1, c1)) = snd (apply_events evs (a2, c1))"
    using sh Cons.prems(2) by (intro Cons.IH) simp_all
  then show ?case by (simp add: r1 r2 c)
qed

lemma count_chars_skip_zero:
  "charCount nb = 0 \<Longrightarrow> count_chars (bs1 @ nb # bs2) = count_chars (bs1 @ bs2)"
  by (simp add: count_chars_def)

lemma shadowed_record:
  "shadowed nb s1 s2 \<Longrightarrow>
   make_record config sid h dir (p\<lparr>state := s1\<rparr>) = make_record config sid h dir (p\<lparr>state := s2\<rparr>)"
  by (auto simp: shadowed_def make_record_def Let_def count_chars_skip_zero)

text \<open>
  C8 (as claimed, refuted). The claim says that a second \<^verbatim>\<open>content_block_start\<close> for an
  index that already has a block leaves the stream state unchanged. The source pushes a new
  block whenever the payload has a \<^verbatim>\<open>content_block\<close>, without looking for an existing one:
  with one block of index 0 and count 5 in the state, a second start for index 0 yields two
  blocks of index 0.
\<close>

theorem duplicate_block_start_counterexample:
  "index (ex_block 5) = 0 \<and> p_index ex_block_start = Val 0 \<and>
   contentBlocks (fst (processSSEEvent (Val ''content_block_start'') ex_block_start
      ((new_state ''m'')\<lparr>contentBlocks := [ex_block 5]\<rparr>, new_session)))
     = [ex_block 5, ex_block 0] \<and>
   processSSEEvent (Val ''content_block_start'') ex_block_start
      ((new_state ''m'')\<lparr>contentBlocks := [ex_block 5]\<rparr>, new_session)
     \<noteq> ((new_state ''m'')\<lparr>contentBlocks := [ex_block 5]\<rparr>, new_session)"
  by (simp add: processSSEEvent_def ex_block_start_def no_payload_def ex_block_def new_state_def
      nullish_or_def or_str_def)

text \<open>
  C8 (amended). A second \<^verbatim>\<open>content_block_start\<close> for an index \<open>i\<close> that already has a block
  is not a no-op: it keeps every existing block, its character count and every other field,
  and appends one more block of index \<open>i\<close> with count 0 at the end of the list. Right after
  it the character totals are unchanged, and a delta on index \<open>i\<close> still goes to the first
  block of that index. As long as every later \<^verbatim>\<open>content_block_start\<close> carries an explicit
  index, the run with the repeated start and the run without it produce the same final
  record and the same session object. Only a payload without a \<^verbatim>\<open>content_block\<close> leaves
  the state unchanged.
\<close>

theorem duplicate_block_start_appends:
  "((\<exists>x\<in>set (contentBlocks st). index x = i) \<and> p_index d = Val i \<and> p_content_block d = Val blk
    \<longrightarrow>
      processSSEEvent (Val ''content_block_start'') d (st, ses)
        = (st\<lparr>contentBlocks := contentBlocks st @
              [\<lparr>index = i, type = or_str (b_type blk) ''text'', charCount = 0\<rparr>]\<rparr>, ses) \<and>
      count_chars (contentBlocks (fst (processSSEEvent (Val ''content_block_start'') d (st, ses))))
        = count_chars (contentBlocks st) \<and>
      add_chars (Val i) n
          (contentBlocks (fst (processSSEEvent (Val ''content_block_start'') d (st, ses))))
        = add_chars (Val i) n (contentBlocks st) @
            [\<lparr>index = i, type = or_str (b_type blk) ''text'', charCount = 0\<rparr>])
   \<and>
   ((\<exists>x\<in>set (contentBlocks st). index x = i) \<and> p_index d = Val i \<and> p_content_block d = Val blk \<and>
    (\<forall>ev\<in>set evs. fst ev = Val ''content_block_start'' \<longrightarrow> (\<exists>j. p_index (snd ev) = Val j))
    \<longrightarrow>
      make_record config sid h dir
          (p\<lparr>state := fst (apply_events evs
                (processSSEEvent (Val ''content_block_start'') d (st, ses)))\<rparr>)
        = make_record config sid h dir (p\<lparr>state := fst (apply_events evs (st, ses))\<rparr>) \<and>
      snd (apply_events evs (processSSEEvent (Val ''content_block_start'') d (st, ses)))
        = snd (apply_events evs (st, ses)))
   \<and>
   (p_content_block d = Undefined \<or> p_content_block d = Null
    \<longrightarrow> processSSEEvent (Val ''content_block_start'') d (st, ses) = (st, ses))"
proof (intro conjI impI)
  assume a: "(\<exists>x\<in>set (contentBlocks st). index x = i) \<and> p_index d = Val i \<and> p_content_block d = Val blk"
  let ?nb = "\<lparr>index = i, type = or_str (b_type blk) ''text'', charCount = 0\<rparr>"
  show r: "processSSEEvent (Val ''content_block_start'') d (st, ses)
      = (st\<lparr>contentBlocks := contentBlocks st @ [?nb]\<rparr>, ses)"
    using a by (simp add: processSSEEvent_def Let_def nullish_or_def)
  show "count_chars (contentBlocks (fst (processSSEEvent (Val ''content_block_start'') d (st, ses))))
      = count_chars (contentBlocks st)"
    by (simp add: r count_chars_snoc_zero)
  show "add_chars (Val i) n
          (contentBlocks (fst (processSSEEvent (Val ''content_block_start'') d (st, ses))))
        = add_chars (Val i) n (contentBlocks st) @ [?nb]"
    using a by (simp add: r add_chars_append)
next
  assume a: "(\<exists>x\<in>set (contentBlocks st). index x = i) \<and> p_index d = Val i \<and>
    p_content_block d = Val blk \<and>
    (\<forall>ev\<in>set evs. fst ev = Val ''content_block_start'' \<longrightarrow> (\<exists>j. p_index (snd ev) = Val j))"
  let ?nb = "\<lparr>index = i, type = or_str (b_type blk) ''text'', charCount = 0\<rparr>"
  let ?s1 = "st\<lparr>contentBlocks := contentBlocks st @ [?nb]\<rparr>"
  have r: "processSSEEvent (Val ''content_block_start'') d (st, ses) = (?s1, ses)"
    using a by (simp add: processSSEEvent_def Let_def nullish_or_def)
  have "contentBlocks ?s1 = contentBlocks st @ ?nb # [] \<and> contentBlocks st = contentBlocks st @ [] \<and>
      (\<exists>x\<in>set (contentBlocks st). index x = index ?nb)"
    using a by simp
  then have sh: "shadowed ?nb ?s1 st"
    unfolding shadowed_def by (intro conjI exI [of _ "contentBlocks st"] exI [of _ "[]"]) simp_all
  have run: "shadowed ?nb (fst (apply_events evs (?s1, ses))) (fst (apply_events evs (st, ses))) \<and>
      snd (apply_events evs (?s1, ses)) = snd (apply_events evs (st, ses))"
    using sh a by (intro shadowed_run) simp_all
  show "make_record config sid h dir
          (p\<lparr>state := fst (apply_events evs
                (processSSEEvent (Val ''content_block_start'') d (st, ses)))\<rparr>)
        = make_record config sid h dir (p\<lparr>state := fst (apply_events evs (st, ses))\<rparr>)"
  proof -
    from run have "shadowed ?nb (fst (apply_events evs (?s1, ses))) (fst (apply_events evs (st, ses)))"
      by simp
    then show ?thesis
      unfolding r by (rule shadowed_record)
  qed
  show "snd (apply_events evs (processSSEEvent (Val ''content_block_start'') d (st, ses)))
        = snd (apply_events evs (st, ses))"
    using run by (simp only: r)
next
  assume "p_content_block d = Undefined \<or> p_content_block d = Null"
  then show "processSSEEvent (Val ''content_block_start'') d (st, ses) = (st, ses)"
    by (auto simp: processSSEEvent_def Let_def)
qed

theorem duplicate_block_start_appends_witness:
  "(\<exists>x\<in>set [ex_block 5]. index x = 0) \<and>
   processSSEEvent (Val ''content_block_start'') ex_block_start
      ((new_state ''m'')\<lparr>contentBlocks := [ex_block 5]\<rparr>, new_session)
     = ((new_state ''m'')\<lparr>contentBlocks := [ex_block 5, ex_block 0]\<rparr>, new_session) \<and>
   count_chars [ex_block 5, ex_block 0] = count_chars [ex_block 5] \<and>
   add_chars (Val 0) 3 [ex_block 5, ex_block 0] = [ex_block 8, ex_block 0] \<and>
   make_record fallback_pricing ''s1'' ex_host ''/work''
      (ex_pending 1 (fst (apply_events
         [(Val ''content_block_delta'', ex_text_delta ''hello''),
          (Val ''content_block_start'', ex_block_start\<lparr>p_index := Val 1\<rparr>),
          (Val ''message_delta'', ex_message_delta)]
         (processSSEEvent (Val ''content_block_start'') ex_block_start
            ((new_state ''m'')\<lparr>contentBlocks := [ex_block 5]\<rparr>, new_session)))))
     = make_record fallback_pricing ''s1'' ex_host ''/work''
      (ex_pending 1 (fst (apply_events
         [(Val ''content_block_delta'', ex_text_delta ''hello''),
          (Val ''content_block_start'', ex_block_start\<lparr>p_index := Val 1\<rparr>),
          (Val ''message_delta'', ex_message_delta)]
         ((new_state ''m'')\<lparr>contentBlocks := [ex_block 5]\<rparr>, new_session)))) \<and>
   processSSEEvent (Val ''content_block_start'') no_payload
      ((new_state ''m'')\<lparr>contentBlocks := [ex_block 5]\<rparr>, new_session)
     = ((new_state ''m'')\<lparr>contentBlocks := [ex_block 5]\<rparr>, new_session)"
  using duplicate_block_start_appends [of "(new_state ''m'')\<lparr>contentBlocks := [ex_block 5]\<rparr>" 0
      ex_block_start "\<lparr>b_type = Val ''text''\<rparr>" new_session 3
      "[(Val ''content_block_delta'', ex_text_delta ''hello''),
        (Val ''content_block_start'', ex_block_start\<lparr>p_index := Val 1\<rparr>),
        (Val ''message_delta'', ex_message_delta)]"
      fallback_pricing "''s1''" ex_host "''/work''" "ex_pending 1 (new_state ''m'')"]
    duplicate_block_start_appends [of "(new_state ''m'')\<lparr>contentBlocks := [ex_block 5]\<rparr>" 0
      no_payload "\<lparr>b_type = Val ''text''\<rparr>" new_session 3]
  by (simp add: ex_block_start_def no_payload_def ex_block_def new_state_def or_str_def
      count_chars_def ex_pending_def processSSEEvent_def ex_text_delta_def ex_message_delta_def
      no_delta_def no_usage_def nullish_or_def make_record_def Let_def)

text \<open>
  The condition on later starts is needed: a later \<^verbatim>\<open>content_block_start\<close> without an
  index takes the length of the block list as its index, which the repeated start has
  shifted, so a later delta can miss its block and the totals differ.
\<close>

lemma indexless_start_after_duplicate:
  "count_chars (contentBlocks (fst (apply_events
      [(Val ''content_block_start'', ex_block_start),
       (Val ''content_block_start'', ex_block_start\<lparr>p_index := Undefined\<rparr>),
       (Val ''content_block_delta'', (ex_text_delta ''abc'')\<lparr>p_index := Val 1\<rparr>)]
      ((new_state ''m'')\<lparr>contentBlocks := [ex_block 0]\<rparr>, new_session)))) = (0, 0, 0) \<and>
   count_chars (contentBlocks (fst (apply_events
      [(Val ''content_block_start'', ex_block_start\<lparr>p_index := Undefined\<rparr>),
       (Val ''content_block_delta'', (ex_text_delta ''abc'')\<lparr>p_index := Val 1\<rparr>)]
      ((new_state ''m'')\<lparr>contentBlocks := [ex_block 0]\<rparr>, new_session)))) = (0, 3, 0)"
  by (simp add: processSSEEvent_def ex_block_start_def ex_text_delta_def no_payload_def
      no_delta_def ex_block_def new_state_def nullish_or_def or_str_def count_chars_def Let_def)

lemma message_start_then_delta:
  assumes ms: "p_message d1 = Val msg" "m_usage msg = Val u1"
      "u_input_tokens u1 = Val a" "u_output_tokens u1 = Val b"
    and md: "p_usage d2 = Val u2" "u_output_tokens u2 = Val c"
    and mid: "\<forall>ev\<in>set mid. fst ev \<noteq> Val ''message_start'' \<and> fst ev \<noteq> Val ''message_delta''"
    and post: "\<forall>ev\<in>set post. fst ev \<noteq> Val ''message_start'' \<and> fst ev \<noteq> Val ''message_delta''"
  shows "input_tokens (usage (fst (apply_events
            (pre @ (Val ''message_start'', d1) # mid @ (Val ''message_delta'', d2) # post) ss))) = a
       \<and> output_tokens (usage (fst (apply_events
            (pre @ (Val ''message_start'', d1) # mid @ (Val ''message_delta'', d2) # post) ss))) = c"
proof -
  let ?s1 = "apply_events pre ss"
  let ?s2 = "processSSEEvent (Val ''message_start'') d1 ?s1"
  let ?s3 = "apply_events mid ?s2"
  let ?s4 = "processSSEEvent (Val ''message_delta'') d2 ?s3"
  let ?s5 = "apply_events post ?s4"
  have run: "apply_events
      (pre @ (Val ''message_start'', d1) # mid @ (Val ''message_delta'', d2) # post) ss = ?s5"
    by simp
  have u2: "input_tokens (usage (fst ?s2)) = a"
    using ms by (simp add: message_start_usage or_zero_def)
  have u3: "input_tokens (usage (fst ?s3)) = a"
    using u2 by (simp add: apply_events_usage_kept [OF mid])
  have i4: "input_tokens (usage (fst ?s4)) = a"
    using u3 by (simp add: message_delta_input)
  have o4: "output_tokens (usage (fst ?s4)) = c"
    using message_delta_output [OF md, of "fst ?s3" "snd ?s3"] by simp
  have "usage (fst ?s5) = usage (fst ?s4)"
    by (rule apply_events_usage_kept [OF post])
  with i4 o4 show ?thesis
    by (simp only: run)
qed

text \<open>
  C1. A \<^verbatim>\<open>message_start\<close> event whose usage has input tokens 100 and output tokens 0,
  followed later by a \<^verbatim>\<open>message_delta\<close> event whose usage has output tokens 50, with no
  other \<^verbatim>\<open>message_start\<close> or \<^verbatim>\<open>message_delta\<close> between or after them, gives a final
  record with input tokens 100 and output tokens 50, whatever came before. In general a
  \<^verbatim>\<open>message_delta\<close> whose usage carries an output token count sets the count of the state
  to that value, so the last one wins, and a \<^verbatim>\<open>message_delta\<close> whose delta carries a
  (non-empty) stop reason stores it.
\<close>

theorem correction_semantics:
  "(p_message d1 = Val msg \<and> m_usage msg = Val u1 \<and>
    u_input_tokens u1 = Val 100 \<and> u_output_tokens u1 = Val 0 \<and>
    p_usage d2 = Val u2 \<and> u_output_tokens u2 = Val 50 \<and>
    (\<forall>ev\<in>set mid. fst ev \<noteq> Val ''message_start'' \<and> fst ev \<noteq> Val ''message_delta'') \<and>
    (\<forall>ev\<in>set post. fst ev \<noteq> Val ''message_start'' \<and> fst ev \<noteq> Val ''message_delta'') \<and>
    state p = fst (apply_events
       (pre @ (Val ''message_start'', d1) # mid @ (Val ''message_delta'', d2) # post) ss) \<and>
    process_cwd h = Some dir
    \<longrightarrow>
      r_input_tokens (last (records (reached (finalizeStream config h p e)))) = 100 \<and>
      r_output_tokens (last (records (reached (finalizeStream config h p e)))) = 50)
   \<and>
   (p_usage d = Val u \<and> u_output_tokens u = Val n
    \<longrightarrow> output_tokens (usage (fst (processSSEEvent (Val ''message_delta'') d (st, ses)))) = n)
   \<and>
   (p_delta d = Val dl \<and> d_stop_reason dl = Val r \<and> r \<noteq> []
    \<longrightarrow> stopReason (fst (processSSEEvent (Val ''message_delta'') d (st, ses))) = Some r)"
proof (intro conjI impI)
  assume a: "p_message d1 = Val msg \<and> m_usage msg = Val u1 \<and>
    u_input_tokens u1 = Val 100 \<and> u_output_tokens u1 = Val 0 \<and>
    p_usage d2 = Val u2 \<and> u_output_tokens u2 = Val 50 \<and>
    (\<forall>ev\<in>set mid. fst ev \<noteq> Val ''message_start'' \<and> fst ev \<noteq> Val ''message_delta'') \<and>
    (\<forall>ev\<in>set post. fst ev \<noteq> Val ''message_start'' \<and> fst ev \<noteq> Val ''message_delta'') \<and>
    state p = fst (apply_events
       (pre @ (Val ''message_start'', d1) # mid @ (Val ''message_delta'', d2) # post) ss) \<and>
    process_cwd h = Some dir"
  have toks: "input_tokens (usage (state p)) = 100 \<and> output_tokens (usage (state p)) = 50"
    using a message_start_then_delta [of d1 msg u1 100 0 d2 u2 50 mid post pre ss] by simp
  have rec: "last (records (reached (finalizeStream config h p e)))
      = make_record config (sessionId e) h dir p"
    using a by (simp add: finalizeStream_records)
  show "r_input_tokens (last (records (reached (finalizeStream config h p e)))) = 100"
    using toks by (simp add: rec make_record_tokens)
  show "r_output_tokens (last (records (reached (finalizeStream config h p e)))) = 50"
    using toks by (simp add: rec make_record_tokens)
next
  assume "p_usage d = Val u \<and> u_output_tokens u = Val n"
  then show "output_tokens (usage (fst (processSSEEvent (Val ''message_delta'') d (st, ses)))) = n"
    by (simp add: message_delta_output)
next
  assume "p_delta d = Val dl \<and> d_stop_reason dl = Val r \<and> r \<noteq> []"
  then show "stopReason (fst (processSSEEvent (Val ''message_delta'') d (st, ses))) = Some r"
    by (simp add: message_delta_stop)
qed

theorem correction_semantics_witness:
  "r_input_tokens (last (records (reached (finalizeStream fallback_pricing ex_host
       (ex_pending 1 (fst (apply_events
          [(Val ''message_start'', ex_message_start), (Val ''content_block_start'', ex_block_start),
           (Val ''content_block_delta'', ex_text_delta ''hello''),
           (Val ''message_delta'', ex_message_delta), (Val ''message_stop'', no_payload)]
          (new_state ''claude-opus-4-6'', new_session))))
       (new_engine ''s1'' False False))))) = 100 \<and>
   r_output_tokens (last (records (reached (finalizeStream fallback_pricing ex_host
       (ex_pending 1 (fst (apply_events
          [(Val ''message_start'', ex_message_start), (Val ''content_block_start'', ex_block_start),
           (Val ''content_block_delta'', ex_text_delta ''hello''),
           (Val ''message_delta'', ex_message_delta), (Val ''message_stop'', no_payload)]
          (new_state ''claude-opus-4-6'', new_session))))
       (new_engine ''s1'' False False))))) = 50 \<and>
   output_tokens (usage (fst (processSSEEvent (Val ''message_delta'') ex_message_delta
       (new_state ''m'', new_session)))) = 50 \<and>
   stopReason (fst (processSSEEvent (Val ''message_delta'') ex_message_delta
       (new_state ''m'', new_session))) = Some ''end_turn''"
  using correction_semantics [of ex_message_start
      "\<lparr>m_id = Val ''msg_01'', m_model = Val ''claude-opus-4-6'',
        m_usage = Val (no_usage\<lparr>u_input_tokens := Val 100, u_output_tokens := Val 0\<rparr>)\<rparr>"
      "no_usage\<lparr>u_input_tokens := Val 100, u_output_tokens := Val 0\<rparr>"
      ex_message_delta "no_usage\<lparr>u_output_tokens := Val 50\<rparr>"
      "[(Val ''content_block_start'', ex_block_start),
        (Val ''content_block_delta'', ex_text_delta ''hello'')]"
      "[(Val ''message_stop'', no_payload)]"
      "ex_pending 1 (fst (apply_events
          [(Val ''message_start'', ex_message_start), (Val ''content_block_start'', ex_block_start),
           (Val ''content_block_delta'', ex_text_delta ''hello''),
           (Val ''message_delta'', ex_message_delta), (Val ''message_stop'', no_payload)]
          (new_state ''claude-opus-4-6'', new_session)))"
      "[]" "(new_state ''claude-opus-4-6'', new_session)" ex_host "''/work''"
      fallback_pricing "new_engine ''s1'' False False"
      ex_message_delta "no_usage\<lparr>u_output_tokens := Val 50\<rparr>" 50 "new_state ''m''" new_session
      "no_delta\<lparr>d_stop_reason := Val ''end_turn''\<rparr>" "''end_turn''"]
  by (simp add: ex_message_start_def ex_message_delta_def no_payload_def no_usage_def no_delta_def
      ex_pending_def ex_host_def)

section \<open>Event demuxer: lemmas and claims\<close>

lemma split_nl_ne [simp]: "split_nl s \<noteq> []"
  by (induction s) (auto split: list.splits)

lemma split_nl_no_nl: "CHR 0x0A \<notin> set s \<Longrightarrow> split_nl s = [s]"
  by (induction s) auto

lemma split_nl_app_nl: "split_nl (a @ CHR 0x0A # b) = split_nl a @ split_nl b"
  by (induction a) (auto split: list.splits)

lemma split_nl_append:
  "split_nl (a @ b) = butlast (split_nl a) @ split_nl (last (split_nl a) @ b)"
proof (induction a)
  case Nil
  show ?case by simp
next
  case (Cons c a)
  show ?case
  proof (cases "c = CHR 0x0A")
    case True
    with Cons show ?thesis by simp
  next
    case False
    obtain l ls where sa: "split_nl a = l # ls"
      by (cases "split_nl a") auto
    show ?thesis
    proof (cases ls)
      case Nil
      with sa False Cons.IH show ?thesis by (simp split: list.splits)
    next
      case (Cons l2 ls2)
      with sa False Cons.IH show ?thesis by (simp split: list.splits)
    qed
  qed
qed

lemma run_lines_simps [simp]:
  "run_lines parse [] ps = ps"
  "run_lines parse (l # ls) ps = run_lines parse ls (processLine parse l ps)"
  "run_lines parse (ls @ ls') ps = run_lines parse ls' (run_lines parse ls ps)"
  by (simp_all add: run_lines_def)

lemma processPendingBuffer_run:
  "processPendingBuffer parse (p, ses) =
     run_lines parse (butlast (split_nl (buffer p))) (p\<lparr>buffer := last (split_nl (buffer p))\<rparr>, ses)"
  by (simp add: processPendingBuffer_def run_lines_def Let_def)

lemma processLine_buffer:
  "processLine parse l (p\<lparr>buffer := b\<rparr>, ses) =
     ((fst (processLine parse l (p, ses)))\<lparr>buffer := b\<rparr>, snd (processLine parse l (p, ses)))"
  by (simp add: processLine_def Let_def split: option.splits)

lemma run_lines_buffer:
  "run_lines parse ls (p\<lparr>buffer := b\<rparr>, ses) =
     ((fst (run_lines parse ls (p, ses)))\<lparr>buffer := b\<rparr>, snd (run_lines parse ls (p, ses)))"
proof (induction ls arbitrary: p ses)
  case Nil
  show ?case by simp
next
  case (Cons l ls)
  show ?case
    by (simp add: processLine_buffer Cons.IH [of "fst (processLine parse l (p, ses))"])
qed

lemma feed_compose:
  "processPendingBuffer parse
     ((fst (processPendingBuffer parse (p\<lparr>buffer := a\<rparr>, ses)))
        \<lparr>buffer := buffer (fst (processPendingBuffer parse (p\<lparr>buffer := a\<rparr>, ses))) @ c\<rparr>,
      snd (processPendingBuffer parse (p\<lparr>buffer := a\<rparr>, ses)))
   = processPendingBuffer parse (p\<lparr>buffer := a @ c\<rparr>, ses)"
proof -
  let ?r = "run_lines parse (butlast (split_nl a)) (p, ses)"
  have first: "processPendingBuffer parse (p\<lparr>buffer := a\<rparr>, ses)
      = ((fst ?r)\<lparr>buffer := last (split_nl a)\<rparr>, snd ?r)"
    by (simp add: processPendingBuffer_run run_lines_buffer)
  let ?t = "last (split_nl a) @ c"
  have lhs: "processPendingBuffer parse ((fst ?r)\<lparr>buffer := ?t\<rparr>, snd ?r)
      = ((fst (run_lines parse (butlast (split_nl ?t)) ?r))\<lparr>buffer := last (split_nl ?t)\<rparr>,
         snd (run_lines parse (butlast (split_nl ?t)) ?r))"
    by (simp add: processPendingBuffer_run run_lines_buffer)
  have sp: "split_nl (a @ c) = butlast (split_nl a) @ split_nl ?t"
    by (rule split_nl_append)
  have bl: "butlast (split_nl (a @ c)) = butlast (split_nl a) @ butlast (split_nl ?t)"
    by (simp add: sp butlast_append)
  have la: "last (split_nl (a @ c)) = last (split_nl ?t)"
    by (simp add: sp)
  have rhs: "processPendingBuffer parse (p\<lparr>buffer := a @ c\<rparr>, ses)
      = ((fst (run_lines parse (butlast (split_nl ?t)) ?r))\<lparr>buffer := last (split_nl ?t)\<rparr>,
         snd (run_lines parse (butlast (split_nl ?t)) ?r))"
    by (simp add: processPendingBuffer_run run_lines_buffer bl la)
  show ?thesis
    by (simp add: first lhs rhs)
qed

lemma processLine_unparseable:
  assumes "take 6 l = ''data: ''" "parse (drop 6 l) = None"
  shows "processLine parse l ps = ps"
proof -
  have "take 7 l \<noteq> ''event: ''"
  proof
    assume e: "take 7 l = ''event: ''"
    have "take 6 l = take 6 (take 7 l)" by simp
    also have "\<dots> = ''event:''" by (simp only: e) simp
    finally show False using assms(1) by simp
  qed
  with assms show ?thesis by (simp add: processLine_def Let_def)
qed

lemma processPendingBuffer_drop_line:
  assumes bad: "take 6 bad = ''data: ''" "parse (drop 6 bad) = None" "CHR 0x0A \<notin> set bad"
    and start: "a = [] \<or> last a = CHR 0x0A"
  shows "processPendingBuffer parse (p\<lparr>buffer := a @ bad @ CHR 0x0A # post\<rparr>, ses)
       = processPendingBuffer parse (p\<lparr>buffer := a @ post\<rparr>, ses)"
proof -
  have skip: "\<And>ps. processLine parse bad ps = ps"
    using bad by (simp add: processLine_unparseable)
  have sb: "split_nl bad = [bad]" using bad(3) by (rule split_nl_no_nl)
  show ?thesis
  proof (cases "a = []")
    case True
    have "split_nl (bad @ CHR 0x0A # post) = bad # split_nl post"
      by (simp add: split_nl_app_nl sb)
    then show ?thesis
      using True by (simp add: processPendingBuffer_run skip)
  next
    case False
    with start obtain a' where a: "a = a' @ [CHR 0x0A]"
      by (metis append_butlast_last_id)
    have s1: "split_nl (a @ bad @ CHR 0x0A # post) = split_nl a' @ bad # split_nl post"
      using split_nl_app_nl [of a' "bad @ CHR 0x0A # post"] split_nl_app_nl [of bad post]
      by (simp add: a sb)
    have s2: "split_nl (a @ post) = split_nl a' @ split_nl post"
      using split_nl_app_nl [of a' post] by (simp add: a)
    have b1: "butlast (split_nl (a @ bad @ CHR 0x0A # post))
        = split_nl a' @ bad # butlast (split_nl post)"
      by (simp add: s1 butlast_append)
    have b2: "butlast (split_nl (a @ post)) = split_nl a' @ butlast (split_nl post)"
      by (simp add: s2 butlast_append)
    have l1: "last (split_nl (a @ bad @ CHR 0x0A # post)) = last (split_nl post)"
      by (simp add: s1)
    have l2: "last (split_nl (a @ post)) = last (split_nl post)"
      by (simp add: s2)
    show ?thesis
      by (simp add: processPendingBuffer_run b1 b2 l1 l2 skip)
  qed
qed

text \<open>
  C7. Let the buffer, after the chunk has been appended, contain a complete line that begins
  with the data marker and whose payload \<^verbatim>\<open>JSON.parse\<close> rejects. Processing the buffer
  gives the same pending stream (state, event-type context, retained fragment) and the same
  session object as processing the buffer with that line and its line break removed: the one
  line is skipped and the lines after it are processed as usual.
\<close>

theorem unparseable_line_skipped:
  assumes "take 6 bad = ''data: ''" and "parse (drop 6 bad) = None" and "CHR 0x0A \<notin> set bad"
    and "buffer p @ pre = [] \<or> last (buffer p @ pre) = CHR 0x0A"
  shows "processPendingBuffer parse (p\<lparr>buffer := buffer p @ pre @ bad @ CHR 0x0A # post\<rparr>, ses)
       = processPendingBuffer parse (p\<lparr>buffer := buffer p @ pre @ post\<rparr>, ses)"
  using processPendingBuffer_drop_line [where a = "buffer p @ pre" and bad = bad and parse = parse
      and p = p and post = post and ses = ses] assms
  by simp

theorem unparseable_line_skipped_witness:
  "take 6 line_truncated = ''data: '' \<and> sample_parse (drop 6 line_truncated) = None \<and>
   CHR 0x0A \<notin> set line_truncated \<and>
   processPendingBuffer sample_parse
     ((ex_pending 1 (new_state ''m''))\<lparr>buffer :=
         unlines [line_message_start] @ line_truncated @ CHR 0x0A # unlines [line_block_start]\<rparr>,
      new_session)
   = processPendingBuffer sample_parse
     ((ex_pending 1 (new_state ''m''))\<lparr>buffer :=
         unlines [line_message_start] @ unlines [line_block_start]\<rparr>, new_session)"
proof -
  have a: "take 6 line_truncated = ''data: ''" by (simp add: line_truncated_def)
  have b: "sample_parse (drop 6 line_truncated) = None"
    by (simp add: line_truncated_def sample_parse_def)
  have c: "CHR 0x0A \<notin> set line_truncated" by (simp add: line_truncated_def)
  have d: "buffer (ex_pending 1 (new_state ''m'')) @ unlines [line_message_start] = [] \<or>
      last (buffer (ex_pending 1 (new_state ''m'')) @ unlines [line_message_start]) = CHR 0x0A"
    by (simp add: unlines_def)
  have e: "buffer (ex_pending 1 (new_state ''m'')) = []" by (simp add: ex_pending_def)
  show ?thesis
    using unparseable_line_skipped [where bad = line_truncated and parse = sample_parse
        and p = "ex_pending 1 (new_state ''m'')" and pre = "unlines [line_message_start]"
        and post = "unlines [line_block_start]" and ses = new_session] a b c d
    by (simp add: ex_pending_def)
qed

lemma on_value_compose:
  "on_value parse t c2 (on_value parse t c1 e) = on_value parse t (c1 @ c2) e"
proof (cases "streams e t")
  case None
  then show ?thesis by (simp add: on_value_def)
next
  case (Some p)
  let ?R = "processPendingBuffer parse (p\<lparr>buffer := buffer p @ c1\<rparr>, session e)"
  have fc: "processPendingBuffer parse ((fst ?R)\<lparr>buffer := buffer (fst ?R) @ c2\<rparr>, snd ?R)
      = processPendingBuffer parse (p\<lparr>buffer := (buffer p @ c1) @ c2\<rparr>, session e)"
    by (rule feed_compose)
  have e1: "on_value parse t c1 e = e\<lparr>session := snd ?R, streams := (streams e)(t \<mapsto> fst ?R)\<rparr>"
    using Some by (simp add: on_value_def process_stream_def Let_def)
  show ?thesis
    using Some fc by (simp add: e1) (simp add: on_value_def process_stream_def Let_def)
qed

lemma on_done_after_value:
  "on_done parse config h t rest (on_value parse t c e) = on_done parse config h t (c @ rest) e"
proof (cases "streams e t")
  case None
  then show ?thesis by (simp add: on_value_def on_done_def)
next
  case (Some p)
  let ?R = "processPendingBuffer parse (p\<lparr>buffer := buffer p @ c\<rparr>, session e)"
  let ?R2 = "processPendingBuffer parse (p\<lparr>buffer := (buffer p @ c) @ rest\<rparr>, session e)"
  have fc: "processPendingBuffer parse ((fst ?R)\<lparr>buffer := buffer (fst ?R) @ rest\<rparr>, snd ?R) = ?R2"
    by (rule feed_compose)
  have e1: "on_value parse t c e = e\<lparr>session := snd ?R, streams := (streams e)(t \<mapsto> fst ?R)\<rparr>"
    using Some by (simp add: on_value_def process_stream_def Let_def)
  have fin: "finalizeStream config h q (e\<lparr>session := s, streams := m\<rparr>\<lparr>session := s', streams := m'\<rparr>)
      = finalizeStream config h q (e\<lparr>session := s', streams := m'\<rparr>)" for q s m s' m'
    by simp
  show ?thesis
    using Some fc by (simp add: e1) (simp add: on_done_def process_stream_def Let_def)
qed

lemma on_done_after_values:
  "on_done parse config h t rest (foldl (\<lambda>e c. on_value parse t c e) e chunks)
     = on_done parse config h t (concat chunks @ rest) e"
proof (induction chunks arbitrary: e)
  case Nil
  show ?case by simp
next
  case (Cons c chunks)
  show ?case
    by (simp add: Cons.IH on_done_after_value)
qed

text \<open>
  C2. For any transcript and any way of cutting it into chunks, feeding the chunks one at a
  time to the stream of turn \<open>t\<close> and then finalizing it on completion leaves the module
  state, and with it the record that was appended, exactly as feeding the whole transcript as
  one chunk and then finalizing does. The chunks are the texts the streaming decoder returns;
  the host values read during finalization are the same in both runs.
\<close>

theorem chunk_boundary_invariance:
  "on_done parse config h t rest (foldl (\<lambda>e c. on_value parse t c e) e chunks)
     = on_done parse config h t rest (on_value parse t (concat chunks) e)"
  by (simp add: on_done_after_values on_done_after_value)

theorem chunk_boundary_invariance_witness:
  "concat ex_chunks = ex_transcript \<and>
   map (\<lambda>r. (r_input_tokens r, r_output_tokens r, r_text_chars r, r_stop_reason r))
     (records (on_done sample_parse fallback_pricing ex_host 1 []
        (foldl (\<lambda>e c. on_value sample_parse 1 c e) ex_engine1 ex_chunks)))
   = [(100, 50, 12, Some ''end_turn'')]"
proof -
  have "take 200 (drop 30 ex_transcript) @ drop 230 ex_transcript = drop 30 ex_transcript"
    using append_take_drop_id [of 200 "drop 30 ex_transcript"] by simp
  then have cc: "concat ex_chunks = ex_transcript"
    by (simp add: ex_chunks_def)
  have one: "map (\<lambda>r. (r_input_tokens r, r_output_tokens r, r_text_chars r, r_stop_reason r))
     (records (on_done sample_parse fallback_pricing ex_host 1 []
        (on_value sample_parse 1 ex_transcript ex_engine1)))
     = [(100, 50, 12, Some ''end_turn'')]"
    by (simp add: ex_transcript_def on_done_def on_value_def process_stream_def
        processPendingBuffer_def processLine_def
        ex_engine1_def interceptedFetch_def isAnthropicMessagesCall_def ex_url_def new_engine_def
        Let_def unlines_def line_message_start_def line_block_start_def line_delta_hello_def
        line_delta_world_def line_message_delta_def sample_parse_def finalizeStream_def
        make_record_def ex_host_def processSSEEvent_def ex_message_start_def ex_block_start_def
        ex_text_delta_def ex_message_delta_def no_payload_def no_usage_def no_delta_def
        count_chars_def trim_def is_ws_def or_str_def or_zero_def nullish_or_def)
  show ?thesis
    using chunk_boundary_invariance [of sample_parse fallback_pricing ex_host 1 "[]" ex_engine1 ex_chunks]
      one cc
    by simp
qed

section \<open>Pricing and finalizer: claims\<close>

lemma find_SomeD: "find P xs = Some x \<Longrightarrow> P x \<and> x \<in> set xs"
  by (induction xs) (auto split: if_splits)

lemma family_match_None:
  "family_match fs normalized ms = None \<longleftrightarrow>
     (\<forall>f\<in>set fs. \<not> (includes_str normalized f \<and> (\<exists>kp\<in>set ms. includes_str (fst kp) f)))"
  by (induction fs) (auto simp: find_None_iff split: option.splits dest: find_SomeD)

lemma resolvePricing_Missing:
  "resolvePricing config modelId = Missing \<longleftrightarrow>
     get_model (models config) (normalizeModelId modelId) = Missing \<and>
     get_model (models config) modelId = Missing \<and>
     (\<forall>f\<in>set [''opus'', ''sonnet'', ''haiku''].
        \<not> (includes_str (normalizeModelId modelId) f \<and>
           (\<exists>kp\<in>set (models config). includes_str (fst kp) f)))"
  unfolding resolvePricing_def Let_def
  by (simp only: family_match_None [symmetric] split: option.splits member.splits) auto

lemma make_record_cost:
  "r_cost_usd (make_record config sid h dir p) =
     calculateCost config (model (state p)) (input_tokens (usage (state p)))
       (output_tokens (usage (state p)))
       (opt_or_zero (cache_creation_input_tokens (usage (state p))))
       (opt_or_zero (cache_read_input_tokens (usage (state p))))"
  by (simp add: make_record_def Let_def)

lemma make_record_config:
  "make_record config sid h dir p
     = (make_record config' sid h dir p)\<lparr>r_cost_usd := r_cost_usd (make_record config sid h dir p)\<rparr>"
  by (simp add: make_record_def Let_def)

text \<open>
  When the lookup in the table yields nothing under the normalized identifier and nothing
  under the raw one, and no family name occurs both in the normalized identifier and in a
  key of the table, \<^verbatim>\<open>calculateCost\<close> returns 0 for any token counts. Finalization still
  appends the record; its token counts and character totals are those of the stream state,
  and the record is the one any other table would give with the cost set to 0.
\<close>

lemma unresolved_model_costs_zero:
  assumes "get_model (models config) (normalizeModelId (model (state p))) = Missing"
    and "get_model (models config) (model (state p)) = Missing"
    and "\<forall>f\<in>set [''opus'', ''sonnet'', ''haiku''].
           \<not> (includes_str (normalizeModelId (model (state p))) f \<and>
              (\<exists>kp\<in>set (models config). includes_str (fst kp) f))"
    and "process_cwd h = Some dir"
  shows "calculateCost config (model (state p)) inTok outTok cwTok crTok = Num 0 \<and>
         records (reached (finalizeStream config h p e))
           = records e @ [make_record config (sessionId e) h dir p] \<and>
         make_record config (sessionId e) h dir p
           = (make_record config' (sessionId e) h dir p)\<lparr>r_cost_usd := Num 0\<rparr> \<and>
         r_input_tokens (make_record config (sessionId e) h dir p)
           = input_tokens (usage (state p)) \<and>
         r_output_tokens (make_record config (sessionId e) h dir p)
           = output_tokens (usage (state p)) \<and>
         r_cache_creation_input_tokens (make_record config (sessionId e) h dir p)
           = opt_or_zero (cache_creation_input_tokens (usage (state p))) \<and>
         r_cache_read_input_tokens (make_record config (sessionId e) h dir p)
           = opt_or_zero (cache_read_input_tokens (usage (state p))) \<and>
         (r_thinking_chars (make_record config (sessionId e) h dir p),
          r_text_chars (make_record config (sessionId e) h dir p),
          r_tool_use_chars (make_record config (sessionId e) h dir p))
           = count_chars (contentBlocks (state p))"
proof -
  have none: "resolvePricing config (model (state p)) = Missing"
    using assms(1,2,3) by (simp only: resolvePricing_Missing)
  then have zero: "\<And>a b c d. calculateCost config (model (state p)) a b c d = Num 0"
    by (simp add: calculateCost_def)
  have cost: "r_cost_usd (make_record config (sessionId e) h dir p) = Num 0"
    by (simp only: make_record_cost zero)
  have "make_record config (sessionId e) h dir p
      = (make_record config' (sessionId e) h dir p)
          \<lparr>r_cost_usd := r_cost_usd (make_record config (sessionId e) h dir p)\<rparr>"
    by (rule make_record_config)
  then have indep: "make_record config (sessionId e) h dir p
      = (make_record config' (sessionId e) h dir p)\<lparr>r_cost_usd := Num 0\<rparr>"
    by (simp only: cost)
  show ?thesis
    using assms(4) zero indep
    by (simp add: finalizeStream_records make_record_tokens make_record_chars)
qed

lemma unresolved_model_costs_zero_example:
  "resolvePricing fallback_pricing ''gpt-4o-20240806'' = Missing \<and>
   calculateCost fallback_pricing ''gpt-4o-20240806'' 100 50 0 0 = Num 0 \<and>
   map (\<lambda>r. (r_model r, r_input_tokens r, r_output_tokens r, r_text_chars r, r_cost_usd r))
     (records (reached (finalizeStream fallback_pricing ex_host
        (ex_pending 1 ((new_state ''gpt-4o-20240806'')
           \<lparr>usage := \<lparr>input_tokens = 100, output_tokens = 50,
                       cache_creation_input_tokens = None, cache_read_input_tokens = None\<rparr>,
            contentBlocks := [ex_block 12]\<rparr>))
        (new_engine ''s1'' False False))))
   = [(''gpt-4o-20240806'', 100, 50, 12, Num 0)]"
  using unresolved_model_costs_zero [of fallback_pricing
      "ex_pending 1 ((new_state ''gpt-4o-20240806'')
           \<lparr>usage := \<lparr>input_tokens = 100, output_tokens = 50,
                       cache_creation_input_tokens = None, cache_read_input_tokens = None\<rparr>,
            contentBlocks := [ex_block 12]\<rparr>)"
      ex_host "''/work''" 100 50 0 0 "new_engine ''s1'' False False" fallback_pricing]
  by (simp add: resolvePricing_def get_model_def inherited_names_def normalizeModelId_def
      is_digit_def fallback_pricing_def ex_pending_def new_state_def ex_host_def new_engine_def
      make_record_def count_chars_def ex_block_def opt_or_zero_def Let_def)

text \<open>
  C6 (defect in the code). The claim asks for cost 0 for every model identifier without an
  exact, a normalized or a family entry in the table. \<^verbatim>\<open>resolvePricing\<close> looks the
  identifier up with \<^verbatim>\<open>config.models[k]\<close> on a plain object, so an identifier that names a
  member every object inherits is answered with that member: \<^verbatim>\<open>if (!pricing) return 0\<close> is
  passed over and every product with a missing price is \<^verbatim>\<open>NaN\<close>. For the model
  \<^verbatim>\<open>toString\<close> (and \<^verbatim>\<open>constructor-20250101\<close>, after normalization) the table has no
  entry and no family matches, yet the cost is \<^verbatim>\<open>NaN\<close>; the record is pushed and written
  with that cost, and the session total becomes \<^verbatim>\<open>NaN\<close>.
\<close>

theorem inherited_name_costs_nan:
  "map_of (models fallback_pricing) (normalizeModelId ''toString'') = None \<and>
   map_of (models fallback_pricing) ''toString'' = None \<and>
   family_match [''opus'', ''sonnet'', ''haiku''] (normalizeModelId ''toString'')
     (models fallback_pricing) = None \<and>
   calculateCost fallback_pricing ''toString'' 100 50 0 0 = NaN \<and>
   calculateCost fallback_pricing ''constructor-20250101'' 100 50 0 0 = NaN \<and>
   map (\<lambda>r. (r_model r, r_input_tokens r, r_output_tokens r, r_cost_usd r))
     (records (reached (finalizeStream fallback_pricing ex_host
        (ex_pending 1 ((new_state ''toString'')
           \<lparr>usage := \<lparr>input_tokens = 100, output_tokens = 50,
                       cache_creation_input_tokens = None, cache_read_input_tokens = None\<rparr>\<rparr>))
        (new_engine ''s1'' False False))))
     = [(''toString'', 100, 50, NaN)] \<and>
   map r_cost_usd
     (sink (reached (finalizeStream fallback_pricing ex_host
        (ex_pending 1 ((new_state ''toString'')
           \<lparr>usage := \<lparr>input_tokens = 100, output_tokens = 50,
                       cache_creation_input_tokens = None, cache_read_input_tokens = None\<rparr>\<rparr>))
        (new_engine ''s1'' False False)))) = [NaN] \<and>
   totalCost (session (reached (finalizeStream fallback_pricing ex_host
        (ex_pending 1 ((new_state ''toString'')
           \<lparr>usage := \<lparr>input_tokens = 100, output_tokens = 50,
                       cache_creation_input_tokens = None, cache_read_input_tokens = None\<rparr>\<rparr>))
        (new_engine ''s1'' False False)))) = NaN"
  by (simp add: calculateCost_def resolvePricing_def get_model_def inherited_names_def
      normalizeModelId_def is_digit_def fallback_pricing_def Let_def finalizeStream_def
      make_record_def ex_host_def ex_pending_def new_state_def new_engine_def new_session_def
      opt_or_zero_def)

section \<open>Exit handler and completion: lemmas and claims\<close>

lemma processSSEEvent_fst:
  "fst (processSSEEvent t d (st, ses)) = fst (processSSEEvent t d (st, ses'))"
  by (simp add: processSSEEvent_def Let_def split: js.splits)

lemma processLine_fst:
  "fst (processLine parse l (p, ses)) = fst (processLine parse l (p, ses'))"
  using processSSEEvent_fst [of _ _ "state p" ses ses']
  by (simp add: processLine_def Let_def split: option.splits)

lemma run_lines_fst:
  "fst (run_lines parse ls (p, ses)) = fst (run_lines parse ls (p, ses'))"
proof (induction ls arbitrary: p ses ses')
  case Nil
  show ?case by simp
next
  case (Cons l ls)
  obtain p1 s1 where r1: "processLine parse l (p, ses) = (p1, s1)"
    by (cases "processLine parse l (p, ses)")
  obtain p2 s2 where r2: "processLine parse l (p, ses') = (p2, s2)"
    by (cases "processLine parse l (p, ses')")
  have "p1 = p2"
    using processLine_fst [of parse l p ses ses'] by (simp add: r1 r2)
  then show ?case
    using Cons.IH [of p1 s1 s2] by (simp add: r1 r2)
qed

lemma processPendingBuffer_fst:
  "fst (processPendingBuffer parse (p, ses)) = fst (processPendingBuffer parse (p, ses'))"
  by (simp only: processPendingBuffer_run run_lines_fst [of _ _ _ ses ses'])

lemma processLine_turnNum: "turnNum (fst (processLine parse l ps)) = turnNum (fst ps)"
  by (simp add: processLine_def Let_def split: option.splits)

lemma run_lines_turnNum: "turnNum (fst (run_lines parse ls ps)) = turnNum (fst ps)"
  by (induction ls arbitrary: ps) (simp_all add: processLine_turnNum)

lemma processPendingBuffer_turnNum:
  "turnNum (fst (processPendingBuffer parse (p, ses))) = turnNum p"
  by (simp add: processPendingBuffer_run run_lines_turnNum)

lemma reached_case: "(case x of Returned e2 \<Rightarrow> e2 | Threw e2 \<Rightarrow> e2) = reached x"
  by (cases x) simp_all

lemma finalizeStream_frame:
  "pendingStreams (reached (finalizeStream config h p e)) = pendingStreams e"
  "streams (reached (finalizeStream config h p e)) = streams e"
  "sessionId (reached (finalizeStream config h p e)) = sessionId e"
  "verbose (reached (finalizeStream config h p e)) = verbose e"
  by (simp_all add: finalizeStream_def Let_def split: option.splits)

lemma finalizeStream_records_gen:
  "records (reached (finalizeStream config h p e)) = records e @
     (case process_cwd h of None \<Rightarrow> [] | Some dir \<Rightarrow> [make_record config (sessionId e) h dir p])"
  by (simp add: finalizeStream_def Let_def split: option.splits)

lemma finalizeStream_sink:
  "sink (reached (finalizeStream config h p e)) = sink e @
     (if verbose e \<and> \<not> stderr_write_ok h then []
      else if writeRecord_ok h
        then (case process_cwd h of None \<Rightarrow> []
              | Some dir \<Rightarrow> [make_record config (sessionId e) h dir p])
      else [])"
  by (simp add: finalizeStream_def Let_def split: option.splits)

lemma exit_one_None: "streams e t = None \<Longrightarrow> exit_one parse config h t e = e"
  by (simp add: exit_one_def)

lemma exit_one_Some:
  "streams e t = Some p \<Longrightarrow>
   exit_one parse config h t e =
     reached (finalizeStream config h (fst (processPendingBuffer parse (p, session e)))
       (e\<lparr>session := snd (processPendingBuffer parse (p, session e)),
          streams := (streams e)(t \<mapsto> fst (processPendingBuffer parse (p, session e)))\<rparr>))"
  by (simp add: exit_one_def process_stream_def Let_def reached_case)

lemma exit_one_frame:
  "pendingStreams (exit_one parse config h t e) = pendingStreams e"
  "sessionId (exit_one parse config h t e) = sessionId e"
  "verbose (exit_one parse config h t e) = verbose e"
  "t' \<noteq> t \<Longrightarrow> streams (exit_one parse config h t e) t' = streams e t'"
  by (cases "streams e t"; simp add: exit_one_None exit_one_Some finalizeStream_frame)+

lemma exit_one_records:
  "records (exit_one parse config (hosts t) t e)
     = records e @ exit_records parse config hosts e t"
proof (cases "streams e t")
  case None
  then show ?thesis by (simp add: exit_one_None exit_records_def)
next
  case (Some p)
  then show ?thesis
    by (simp add: exit_one_Some exit_records_def finalizeStream_records_gen cong: option.case_cong)
qed

lemma exit_one_sink:
  "sink (exit_one parse config (hosts t) t e)
     = sink e @ exit_written parse config hosts e t"
proof (cases "streams e t")
  case None
  then show ?thesis by (simp add: exit_one_None exit_written_def exit_records_def)
next
  case (Some p)
  then show ?thesis
    by (simp add: exit_one_Some exit_written_def exit_records_def finalizeStream_sink cong: option.case_cong)
qed

lemma exit_records_cong:
  "streams e1 t = streams e t \<Longrightarrow> sessionId e1 = sessionId e \<Longrightarrow>
   exit_records parse config hosts e1 t = exit_records parse config hosts e t"
proof (cases "streams e t")
  case None
  assume "streams e1 t = streams e t"
  with None show ?thesis by (simp add: exit_records_def)
next
  case (Some p)
  assume a: "streams e1 t = streams e t" "sessionId e1 = sessionId e"
  have "fst (processPendingBuffer parse (p, session e1)) = fst (processPendingBuffer parse (p, session e))"
    by (rule processPendingBuffer_fst)
  with a Some show ?thesis by (simp add: exit_records_def cong: option.case_cong)
qed

lemma exit_written_cong:
  "streams e1 t = streams e t \<Longrightarrow> sessionId e1 = sessionId e \<Longrightarrow> verbose e1 = verbose e \<Longrightarrow>
   exit_written parse config hosts e1 t = exit_written parse config hosts e t"
  using exit_records_cong [of e1 t e parse config hosts] by (simp add: exit_written_def)

lemma exit_loop_frame:
  "pendingStreams (exit_loop parse config hosts ts e) = pendingStreams e"
  "sessionId (exit_loop parse config hosts ts e) = sessionId e"
  "verbose (exit_loop parse config hosts ts e) = verbose e"
  by (induction ts arbitrary: e) (simp_all add: exit_one_frame)

lemma exit_loop_records:
  "distinct ts \<Longrightarrow>
   records (exit_loop parse config hosts ts e)
     = records e @ concat (map (exit_records parse config hosts e) ts)"
proof (induction ts arbitrary: e)
  case Nil
  show ?case by simp
next
  case (Cons t ts)
  let ?e1 = "exit_one parse config (hosts t) t e"
  have same: "map (exit_records parse config hosts ?e1) ts = map (exit_records parse config hosts e) ts"
  proof (rule map_cong [OF refl])
    fix t' assume "t' \<in> set ts"
    with Cons.prems have "t' \<noteq> t" by auto
    then show "exit_records parse config hosts ?e1 t' = exit_records parse config hosts e t'"
      by (intro exit_records_cong) (simp_all add: exit_one_frame)
  qed
  from Cons.prems have "distinct ts" by simp
  then have "records (exit_loop parse config hosts ts ?e1)
      = records ?e1 @ concat (map (exit_records parse config hosts ?e1) ts)"
    by (rule Cons.IH)
  then show ?case
    by (simp add: same exit_one_records)
qed

lemma exit_loop_sink:
  "distinct ts \<Longrightarrow>
   sink (exit_loop parse config hosts ts e)
     = sink e @ concat (map (exit_written parse config hosts e) ts)"
proof (induction ts arbitrary: e)
  case Nil
  show ?case by simp
next
  case (Cons t ts)
  let ?e1 = "exit_one parse config (hosts t) t e"
  have same: "map (exit_written parse config hosts ?e1) ts = map (exit_written parse config hosts e) ts"
  proof (rule map_cong [OF refl])
    fix t' assume "t' \<in> set ts"
    with Cons.prems have "t' \<noteq> t" by auto
    then show "exit_written parse config hosts ?e1 t' = exit_written parse config hosts e t'"
      by (intro exit_written_cong) (simp_all add: exit_one_frame)
  qed
  from Cons.prems have "distinct ts" by simp
  then have "sink (exit_loop parse config hosts ts ?e1)
      = sink ?e1 @ concat (map (exit_written parse config hosts ?e1) ts)"
    by (rule Cons.IH)
  then show ?case
    by (simp add: same exit_one_sink)
qed

lemma exitHandler_records:
  "distinct (pendingStreams e) \<Longrightarrow>
   records (exitHandler parse config hosts e)
     = records e @ concat (map (exit_records parse config hosts e) (pendingStreams e))"
  by (simp add: exitHandler_def exit_loop_records)

lemma ex_engine3_eval:
  "ex_engine3 = \<lparr>sessionId = ''s1'', verbose = False, noDb = False, turnCounter = 3,
     records = [], session = new_session, pendingStreams = [1, 2, 3],
     streams = (\<lambda>t. None)
        (1 \<mapsto> (ex_pending 1 (new_state ''claude-opus-4-6'')),
         2 \<mapsto> (ex_pending 2 (new_state ''claude-sonnet-4-6''))
                \<lparr>requestModel := ''claude-sonnet-4-6'', startTime := 1700000000200\<rparr>,
         3 \<mapsto> (ex_pending 3 (new_state ''claude-haiku-4-5''))
                \<lparr>requestModel := ''claude-haiku-4-5'', startTime := 1700000000300\<rparr>),
     sink = []\<rparr>"
  by (simp add: ex_engine3_def ex_engine1_def interceptedFetch_def isAnthropicMessagesCall_def
      ex_url_def new_engine_def Let_def ex_pending_def new_state_def numeral_2_eq_2 numeral_3_eq_3)

lemma ex_engine_partial_eval:
  "ex_engine_partial = \<lparr>sessionId = ''s1'', verbose = False, noDb = False, turnCounter = 3,
     records = [], session = new_session\<lparr>lastModel := ''claude-opus-4-6''\<rparr>,
     pendingStreams = [1, 2, 3],
     streams = (\<lambda>t. None)
        (1 \<mapsto> (ex_pending 1 (new_state ''claude-opus-4-6'')),
         2 \<mapsto> (ex_pending 2 (new_state ''claude-sonnet-4-6''))
                \<lparr>requestModel := ''claude-sonnet-4-6'', startTime := 1700000000200\<rparr>,
         3 \<mapsto> (ex_pending 3 (new_state ''claude-haiku-4-5''))
                \<lparr>requestModel := ''claude-haiku-4-5'', startTime := 1700000000300\<rparr>,
         1 \<mapsto> ex_pending 1 ((new_state ''claude-opus-4-6'')
                \<lparr>messageId := Some ''msg_01'',
                 usage := \<lparr>input_tokens = 100, output_tokens = 0,
                            cache_creation_input_tokens = Some 0,
                            cache_read_input_tokens = Some 0\<rparr>\<rparr>)),
     sink = []\<rparr>"
  by (simp add: ex_engine_partial_def ex_engine3_eval on_value_def process_stream_def
      processPendingBuffer_def processLine_def processSSEEvent_def Let_def
      ex_partial_def unlines_def line_message_start_def line_delta_hello_def line_delta_world_def
      sample_parse_def ex_message_start_def ex_text_delta_def no_payload_def no_usage_def
      no_delta_def or_str_def or_zero_def ex_pending_def new_state_def new_session_def)

lemma exit_records_length:
  "streams e t \<noteq> None \<Longrightarrow> process_cwd (hosts t) \<noteq> None \<Longrightarrow>
   length (exit_records parse config hosts e t) = 1"
  by (auto simp: exit_records_def split: option.splits)

lemma length_concat_singletons:
  "\<forall>t\<in>set ts. length (f t) = 1 \<Longrightarrow> length (concat (map f ts)) = length ts"
  by (induction ts) simp_all

text \<open>
  C4. The exit handler leaves the pending set empty. For every pending stream it appends one
  record, that of the state the stream has reached (after the complete lines still in its
  buffer are processed), in the order of the pending set; the only streams without a record
  are those during whose finalization \<^verbatim>\<open>process.cwd()\<close> throws, and such a failure takes
  nothing from the streams after it. The same holds for what reaches \<^verbatim>\<open>writeRecord\<close>.
  When \<^verbatim>\<open>process.cwd()\<close> throws for none of them, the number of records appended is the
  number of pending streams.
\<close>

theorem exit_flush:
  assumes "distinct (pendingStreams e)"
  shows "pendingStreams (exitHandler parse config hosts e) = [] \<and>
     records (exitHandler parse config hosts e)
       = records e @ concat (map (exit_records parse config hosts e) (pendingStreams e)) \<and>
     sink (exitHandler parse config hosts e)
       = sink e @ concat (map (exit_written parse config hosts e) (pendingStreams e)) \<and>
     ((\<forall>t\<in>set (pendingStreams e). streams e t \<noteq> None \<and> process_cwd (hosts t) \<noteq> None)
        \<longrightarrow> length (records (exitHandler parse config hosts e))
              = length (records e) + length (pendingStreams e))"
proof -
  have recs: "records (exitHandler parse config hosts e)
       = records e @ concat (map (exit_records parse config hosts e) (pendingStreams e))"
    using assms by (rule exitHandler_records)
  have len: "length (records (exitHandler parse config hosts e))
              = length (records e) + length (pendingStreams e)"
    if all: "\<forall>t\<in>set (pendingStreams e). streams e t \<noteq> None \<and> process_cwd (hosts t) \<noteq> None"
  proof -
    have "\<forall>t\<in>set (pendingStreams e). length (exit_records parse config hosts e t) = 1"
      using all by (simp add: exit_records_length)
    then have "length (concat (map (exit_records parse config hosts e) (pendingStreams e)))
        = length (pendingStreams e)"
      by (rule length_concat_singletons)
    then show ?thesis by (simp add: recs)
  qed
  show ?thesis
    using assms len recs by (simp add: exitHandler_def exit_loop_sink)
qed

theorem exit_flush_witness:
  "distinct (pendingStreams ex_engine_partial) \<and>
   pendingStreams (exitHandler sample_parse fallback_pricing ex_hosts ex_engine_partial) = [] \<and>
   map (\<lambda>r. (r_turn_number r, r_message_id r, r_input_tokens r, r_output_tokens r, r_stop_reason r))
     (records (exitHandler sample_parse fallback_pricing ex_hosts ex_engine_partial))
     = [(1, Some ''msg_01'', 100, 0, None), (3, None, 0, 0, None)] \<and>
   map r_turn_number (sink (exitHandler sample_parse fallback_pricing ex_hosts ex_engine_partial))
     = [1, 3] \<and>
   streams ex_engine_partial 1 \<noteq> None \<and> streams ex_engine_partial 2 \<noteq> None \<and>
   streams ex_engine_partial 3 \<noteq> None \<and> process_cwd ex_host \<noteq> None \<and>
   length (records (exitHandler sample_parse fallback_pricing (\<lambda>t. ex_host) ex_engine_partial)) = 3"
  using exit_flush [of ex_engine_partial sample_parse fallback_pricing ex_hosts]
    exit_flush [of ex_engine_partial sample_parse fallback_pricing "\<lambda>t. ex_host"]
  by (simp add: ex_engine_partial_eval exit_records_def exit_written_def ex_hosts_def
      ex_host_no_cwd_def ex_host_def processPendingBuffer_def make_record_def Let_def
      ex_pending_def new_state_def)

lemma finalizeStream_Returned:
  "process_cwd h = Some dir \<Longrightarrow> \<not> (verbose e \<and> \<not> stderr_write_ok h) \<Longrightarrow>
   finalizeStream config h p e = Returned (reached (finalizeStream config h p e))"
  by (simp add: finalizeStream_def Let_def)

lemma on_done_Some:
  assumes "streams e t = Some p" "process_cwd h = Some dir" "\<not> (verbose e \<and> \<not> stderr_write_ok h)"
  shows "on_done parse config h t rest e =
    (reached (finalizeStream config h
        (fst (processPendingBuffer parse (p\<lparr>buffer := buffer p @ rest\<rparr>, session e)))
        (e\<lparr>session := snd (processPendingBuffer parse (p\<lparr>buffer := buffer p @ rest\<rparr>, session e)),
           streams := (streams e)(t \<mapsto>
              fst (processPendingBuffer parse (p\<lparr>buffer := buffer p @ rest\<rparr>, session e)))\<rparr>)))
     \<lparr>pendingStreams := removeAll t (pendingStreams e)\<rparr>"
proof -
  let ?R = "processPendingBuffer parse (p\<lparr>buffer := buffer p @ rest\<rparr>, session e)"
  let ?E1 = "e\<lparr>session := snd ?R, streams := (streams e)(t \<mapsto> fst ?R)\<rparr>"
  have v: "\<not> (verbose ?E1 \<and> \<not> stderr_write_ok h)" using assms(3) by simp
  have fin: "finalizeStream config h (fst ?R) ?E1
      = Returned (reached (finalizeStream config h (fst ?R) ?E1))"
    by (rule finalizeStream_Returned [OF assms(2) v])
  have ps: "pendingStreams (reached (finalizeStream config h (fst ?R) ?E1)) = pendingStreams e"
    by (simp add: finalizeStream_frame)
  have "on_done parse config h t rest e =
      (case finalizeStream config h (fst ?R) ?E1 of
         Returned e2 \<Rightarrow> e2\<lparr>pendingStreams := removeAll t (pendingStreams e2)\<rparr>
       | Threw e2 \<Rightarrow> e2)"
    using assms(1) by (simp add: on_done_def process_stream_def Let_def)
  also have "\<dots> = (reached (finalizeStream config h (fst ?R) ?E1))
      \<lparr>pendingStreams := removeAll t (pendingStreams (reached (finalizeStream config h (fst ?R) ?E1)))\<rparr>"
    by (subst fin) simp
  finally show ?thesis by (simp only: ps)
qed

lemma exit_records_turn:
  assumes "streams e t' = Some q" "turnNum q = t'" "r \<in> set (exit_records parse config hosts e t')"
  shows "r_turn_number r = t'"
  using assms
  by (auto simp: exit_records_def make_record_tokens processPendingBuffer_turnNum
      split: option.splits)

lemma exit_records_absent:
  "streams e t' = None \<Longrightarrow> exit_records parse config hosts e t' = []"
  by (simp add: exit_records_def)

text \<open>
  C3 (as claimed, refuted). The claim says that a second finalize attempt for the same turn
  is a no-op that never emits a duplicate record. \<^verbatim>\<open>finalizeStream\<close> has no guard: the
  wrapped \<^verbatim>\<open>read\<close> finalizes the stream object it captured each time the reader reports
  completion. With one open stream, a first completion empties the pending set and appends
  one record for turn 1; a second completion on the same reader appends a second record for
  turn 1 and writes it to the sink again.
\<close>

theorem double_done_counterexample:
  "pendingStreams ex_engine1 = [1] \<and>
   pendingStreams (on_done sample_parse fallback_pricing ex_host 1 [] ex_engine1) = [] \<and>
   map r_turn_number (records (on_done sample_parse fallback_pricing ex_host 1 [] ex_engine1)) = [1] \<and>
   map r_turn_number (records (on_done sample_parse fallback_pricing ex_host 1 []
      (on_done sample_parse fallback_pricing ex_host 1 [] ex_engine1))) = [1, 1] \<and>
   map r_turn_number (sink (on_done sample_parse fallback_pricing ex_host 1 []
      (on_done sample_parse fallback_pricing ex_host 1 [] ex_engine1))) = [1, 1]"
  by (simp add: ex_engine1_def interceptedFetch_def isAnthropicMessagesCall_def ex_url_def
      new_engine_def Let_def on_done_def process_stream_def processPendingBuffer_def
      finalizeStream_def make_record_def ex_host_def)

text \<open>
  C3 (amended). When a stream completes and its finalization does not throw, the completion
  callback appends exactly one record for it and removes it from the pending set, in one
  call with no suspension point between the two. The exit handler that runs afterwards
  appends no record with that turn number: the records of that turn are the same before and
  after it. The pending map is taken as \<^verbatim>\<open>interceptedFetch\<close> builds it: keys distinct, each
  stream stored under its own turn number.
\<close>

theorem finalize_once_then_exit:
  assumes "streams e t = Some p" and "process_cwd h = Some dir"
    and "\<not> (verbose e \<and> \<not> stderr_write_ok h)"
    and "distinct (pendingStreams e)"
    and "\<forall>t'\<in>set (pendingStreams e). \<forall>q. streams e t' = Some q \<longrightarrow> turnNum q = t'"
  shows "t \<notin> set (pendingStreams (on_done parse config h t rest e)) \<and>
     records (on_done parse config h t rest e)
       = records e @ [make_record config (sessionId e) h dir
           (fst (processPendingBuffer parse (p\<lparr>buffer := buffer p @ rest\<rparr>, session e)))] \<and>
     filter (\<lambda>r. r_turn_number r = t)
         (records (exitHandler parse config hosts (on_done parse config h t rest e)))
       = filter (\<lambda>r. r_turn_number r = t) (records (on_done parse config h t rest e))"
proof -
  let ?e1 = "on_done parse config h t rest e"
  note od = on_done_Some [OF assms(1,2,3), of parse config rest]
  have ps: "pendingStreams ?e1 = removeAll t (pendingStreams e)"
    by (simp add: od)
  have recs: "records ?e1 = records e @ [make_record config (sessionId e) h dir
           (fst (processPendingBuffer parse (p\<lparr>buffer := buffer p @ rest\<rparr>, session e)))]"
    using assms(2) by (simp add: od finalizeStream_records)
  have st: "\<And>t'. t' \<noteq> t \<Longrightarrow> streams ?e1 t' = streams e t'"
    by (simp add: od finalizeStream_frame)
  have d1: "distinct (pendingStreams ?e1)"
    using assms(4) by (simp add: ps distinct_removeAll)
  have none: "\<And>t' r. t' \<in> set (pendingStreams ?e1) \<Longrightarrow>
      r \<in> set (exit_records parse config hosts ?e1 t') \<Longrightarrow> r_turn_number r \<noteq> t"
  proof -
    fix t' r
    assume m: "t' \<in> set (pendingStreams ?e1)"
      and r: "r \<in> set (exit_records parse config hosts ?e1 t')"
    from m have ne: "t' \<noteq> t" and mem: "t' \<in> set (pendingStreams e)" by (simp_all add: ps)
    show "r_turn_number r \<noteq> t"
    proof (cases "streams ?e1 t'")
      case None
      with r show ?thesis by (simp add: exit_records_absent)
    next
      case (Some q)
      then have "streams e t' = Some q" using st [OF ne] by simp
      with assms(5) mem have "turnNum q = t'" by blast
      then have "r_turn_number r = t'" using Some r by (intro exit_records_turn [of ?e1 t' q]) simp_all
      with ne show ?thesis by simp
    qed
  qed
  have "filter (\<lambda>r. r_turn_number r = t)
      (concat (map (exit_records parse config hosts ?e1) (pendingStreams ?e1))) = []"
    using none by (auto simp: filter_empty_conv)
  then have "filter (\<lambda>r. r_turn_number r = t) (records (exitHandler parse config hosts ?e1))
      = filter (\<lambda>r. r_turn_number r = t) (records ?e1)"
    by (simp add: exitHandler_records [OF d1])
  with ps recs show ?thesis by simp
qed

theorem finalize_once_then_exit_witness:
  "streams ex_engine_partial 1 \<noteq> None \<and> distinct (pendingStreams ex_engine_partial) \<and>
   1 \<notin> set (pendingStreams
     (on_done sample_parse fallback_pricing ex_host 1 [] ex_engine_partial)) \<and>
   map r_turn_number
     (records (on_done sample_parse fallback_pricing ex_host 1 [] ex_engine_partial)) = [1] \<and>
   filter (\<lambda>r. r_turn_number r = 1)
     (records (exitHandler sample_parse fallback_pricing (\<lambda>t. ex_host)
        (on_done sample_parse fallback_pricing ex_host 1 [] ex_engine_partial)))
   = filter (\<lambda>r. r_turn_number r = 1)
     (records (on_done sample_parse fallback_pricing ex_host 1 [] ex_engine_partial))"
proof -
  have inv: "\<forall>t'\<in>set (pendingStreams ex_engine_partial).
      \<forall>q. streams ex_engine_partial t' = Some q \<longrightarrow> turnNum q = t'"
    by (simp add: ex_engine_partial_eval ex_pending_def)
  have s1: "streams ex_engine_partial 1 = Some (ex_pending 1 ((new_state ''claude-opus-4-6'')
                \<lparr>messageId := Some ''msg_01'',
                 usage := \<lparr>input_tokens = 100, output_tokens = 0,
                            cache_creation_input_tokens = Some 0,
                            cache_read_input_tokens = Some 0\<rparr>\<rparr>))"
    by (simp add: ex_engine_partial_eval)
  have c: "process_cwd ex_host = Some ''/work''" by (simp add: ex_host_def)
  have v: "\<not> (verbose ex_engine_partial \<and> \<not> stderr_write_ok ex_host)"
    by (simp add: ex_host_def)
  have d: "distinct (pendingStreams ex_engine_partial)"
    by (simp add: ex_engine_partial_eval)
  have ps: "pendingStreams ex_engine_partial = [1, 2, 3]"
    by (simp add: ex_engine_partial_eval)
  show ?thesis
    using finalize_once_then_exit [OF s1 c v d inv, of sample_parse fallback_pricing "[]" "\<lambda>t. ex_host"]
    by (simp add: ex_engine_partial_eval make_record_tokens processPendingBuffer_turnNum
        ex_pending_def)
qed

end
